theory Spec2Isabelle
  imports Main "HOL-Library.Word" "HOL-Library.Multiset"
begin

section \<open>Errors\<close>

text \<open>
  Go errors are values. Three families occur in the sources: errors of the cloud SDK,
  which carry a \<open>gcerrors\<close> code; gRPC status errors, which carry a code of the
  taxonomy; and every other error, which carries only its message.
\<close>

datatype gc_code =
    GC_OK | GC_Unknown | GC_NotFound | GC_AlreadyExists | GC_InvalidArgument
  | GC_Internal | GC_Unimplemented | GC_FailedPrecondition | GC_PermissionDenied
  | GC_ResourceExhausted | GC_Canceled | GC_DeadlineExceeded

datatype codes =
    Code_OK | Code_Canceled | Code_Unknown | Code_InvalidArgument
  | Code_DeadlineExceeded | Code_NotFound | Code_AlreadyExists
  | Code_PermissionDenied | Code_ResourceExhausted | Code_FailedPrecondition
  | Code_Aborted | Code_OutOfRange | Code_Unimplemented | Code_Internal
  | Code_Unavailable | Code_DataLoss | Code_Unauthenticated

datatype error =
    GcError gc_code string
  | StatusError codes string
  | PlainError string

text \<open>\<open>err.Error()\<close>: the message of an error.\<close>

fun error_Error :: "error \<Rightarrow> string" where
  "error_Error (GcError c m) = m"
| "error_Error (StatusError c m) = m"
| "error_Error (PlainError m) = m"

text \<open>\<open>gcerrors.Code(err)\<close>: the SDK code of an error; an error of another family has
  no SDK code and is reported as unknown.\<close>

fun gcerrors_Code :: "error \<Rightarrow> gc_code" where
  "gcerrors_Code (GcError c m) = c"
| "gcerrors_Code (StatusError c m) = GC_Unknown"
| "gcerrors_Code (PlainError m) = GC_Unknown"

text \<open>\<open>status.Errorf(c, format)\<close> with no further arguments. The rendering of a format
  string without arguments is the formatter's business and is taken as a parameter.\<close>

definition status_Errorf :: "(string \<Rightarrow> string) \<Rightarrow> codes \<Rightarrow> string \<Rightarrow> error" where
  "status_Errorf sprintf c format = StatusError c (sprintf format)"

text \<open>\<open>status.Code(err)\<close>: the taxonomy code of an error.\<close>

fun status_Code :: "error \<Rightarrow> codes" where
  "status_Code (StatusError c m) = c"
| "status_Code (GcError c m) = Code_Unknown"
| "status_Code (PlainError m) = Code_Unknown"

section \<open>Digests, digest sets and storage types\<close>

text \<open>Modelled from the spec: the digest package is not among the sources. A digest is
  the triple of instance name, hash (kept in its hexadecimal rendering) and size in
  bytes, an \<open>int64\<close>.\<close>

record digest =
  instanceName :: string
  hash :: string
  sizeBytes :: int

text \<open>Decimal rendering of the size, as the key formats need it.\<close>

definition digit_char :: "nat \<Rightarrow> char" where
  "digit_char n = ''0123456789'' ! n"

function show_nat :: "nat \<Rightarrow> string" where
  "show_nat n = (if n < 10 then [digit_char n] else show_nat (n div 10) @ [digit_char (n mod 10)])"
  by pat_completeness auto
termination
  by (relation "measure id") auto

declare show_nat.simps [simp del]

definition show_int :: "int \<Rightarrow> string" where
  "show_int i = (if i < 0 then CHR ''-'' # show_nat (nat (- i)) else show_nat (nat i))"

datatype StorageType = CAS | AC

text \<open>Modelled from the spec: the storage types are not among the sources. The CAS key
  is \<open>hash_hex + "-" + sizeBytes\<close>; the AC key is
  \<open>instanceName + "/" + hash_hex + "-" + sizeBytes\<close>.\<close>

fun GetDigestKey :: "StorageType \<Rightarrow> digest \<Rightarrow> string" where
  "GetDigestKey CAS d = hash d @ ''-'' @ show_int (sizeBytes d)"
| "GetDigestKey AC d = instanceName d @ ''/'' @ hash d @ ''-'' @ show_int (sizeBytes d)"

text \<open>Modelled from the spec: a digest set is an unordered set of digests built via a
  builder, which yields its items in a deterministic iteration order. It is kept as
  the list of its items; the builder ignores a digest it already holds.\<close>

datatype digest_set = DigestSet (Items: "digest list")

definition EmptySet :: digest_set where
  "EmptySet = DigestSet []"

type_synonym SetBuilder = "digest list"

definition NewSetBuilder :: SetBuilder where
  "NewSetBuilder = []"

definition Add :: "SetBuilder \<Rightarrow> digest \<Rightarrow> SetBuilder" where
  "Add sb d = (if d \<in> set sb then sb else sb @ [d])"

definition Build :: "SetBuilder \<Rightarrow> digest_set" where
  "Build sb = DigestSet sb"

section \<open>The cloud bucket\<close>

text \<open>
  The bucket of the cloud SDK is an external collaborator. Its state is the committed
  objects; its failures (network, permissions) are an oracle that says which operation
  on which key fails with which error. Every operation is recorded in the bucket's
  event log, so that the keys an operation addresses and the order of its calls are
  observable.
\<close>

datatype bucket_op = OpNewReader | OpNewWriter | OpExists | OpDelete | OpClose

datatype bucket_event =
    EvNewReader string
  | EvNewWriter string
  | EvExists string
  | EvDelete string
  | EvWrite string
  | EvCancel string
  | EvClose string

fun event_key :: "bucket_event \<Rightarrow> string" where
  "event_key (EvNewReader k) = k"
| "event_key (EvNewWriter k) = k"
| "event_key (EvExists k) = k"
| "event_key (EvDelete k) = k"
| "event_key (EvWrite k) = k"
| "event_key (EvCancel k) = k"
| "event_key (EvClose k) = k"

record bucket =
  objects :: "string \<rightharpoonup> string"
  faults :: "bucket_op \<Rightarrow> string \<Rightarrow> error option"
  write_fault :: "string \<Rightarrow> (nat \<times> error) option"
  events :: "bucket_event list"

definition record_event :: "bucket_event \<Rightarrow> bucket \<Rightarrow> bucket" where
  "record_event e b = b\<lparr>events := events b @ [e]\<rparr>"

text \<open>A reader delivers a sequence of bytes and then ends, with EOF (\<open>None\<close>) or with
  an error.\<close>

record reader =
  r_data :: string
  r_err :: "error option"

definition not_found_error :: "string \<Rightarrow> error" where
  "not_found_error k = GcError GC_NotFound (''blob (key '' @ k @ '') (code=NotFound)'')"

definition bucket_Exists :: "bucket \<Rightarrow> string \<Rightarrow> (error + bool) \<times> bucket" where
  "bucket_Exists b k =
     (case faults b OpExists k of
        Some e \<Rightarrow> (Inl e, record_event (EvExists k) b)
      | None \<Rightarrow> (Inr (objects b k \<noteq> None), record_event (EvExists k) b))"

definition bucket_NewReader :: "bucket \<Rightarrow> string \<Rightarrow> (error + reader) \<times> bucket" where
  "bucket_NewReader b k =
     (case faults b OpNewReader k of
        Some e \<Rightarrow> (Inl e, record_event (EvNewReader k) b)
      | None \<Rightarrow>
          (case objects b k of
             None \<Rightarrow> (Inl (not_found_error k), record_event (EvNewReader k) b)
           | Some data \<Rightarrow>
               (Inr \<lparr>r_data = data, r_err = None\<rparr>, record_event (EvNewReader k) b)))"

definition bucket_Delete :: "bucket \<Rightarrow> string \<Rightarrow> error option \<times> bucket" where
  "bucket_Delete b k =
     (case faults b OpDelete k of
        Some e \<Rightarrow> (Some e, record_event (EvDelete k) b)
      | None \<Rightarrow>
          (case objects b k of
             None \<Rightarrow> (Some (not_found_error k), record_event (EvDelete k) b)
           | Some data \<Rightarrow>
               (None, record_event (EvDelete k) (b\<lparr>objects := (objects b)(k := None)\<rparr>))))"

section \<open>The cloud blob access\<close>

record cloudBlobAccess =
  keyPrefix :: string
  storageType :: StorageType

definition getKey :: "cloudBlobAccess \<Rightarrow> digest \<Rightarrow> string" where
  "getKey ba d = keyPrefix ba @ GetDigestKey (storageType ba) d"

text \<open>\<open>FindMissing\<close>: the loop over the items of the set, with the set builder as
  accumulator. The first failing existence check ends the loop.\<close>

fun FindMissing_loop ::
  "cloudBlobAccess \<Rightarrow> digest list \<Rightarrow> SetBuilder \<Rightarrow> bucket
     \<Rightarrow> (digest_set \<times> error option) \<times> bucket" where
  "FindMissing_loop ba [] missing b = ((Build missing, None), b)"
| "FindMissing_loop ba (blobDigest # rest) missing b =
     (case bucket_Exists b (getKey ba blobDigest) of
        (Inl err, b') \<Rightarrow> ((EmptySet, Some err), b')
      | (Inr exists, b') \<Rightarrow>
          (if \<not> exists then FindMissing_loop ba rest (Add missing blobDigest) b'
           else FindMissing_loop ba rest missing b'))"

definition FindMissing ::
  "cloudBlobAccess \<Rightarrow> digest_set \<Rightarrow> bucket \<Rightarrow> (digest_set \<times> error option) \<times> bucket" where
  "FindMissing ba digests b = FindMissing_loop ba (Items digests) NewSetBuilder b"

text \<open>Modelled from the spec: the buffer package is not among the sources. A buffer is
  a variant over its construction sources; a buffer built from a backend's reader
  carries the repair strategy, whose hook acts on the bucket. The storage type says how
  a buffer is built from a raw reader.\<close>

datatype Source = UserProvided | BackendProvided

datatype RepairStrategy =
    Irreparable
  | Reparable digest "bucket \<Rightarrow> error option \<times> bucket"

datatype Buffer =
    NewBufferFromError error
  | NewCASBufferFromByteSlice digest string Source
  | NewCASBufferFromReader digest reader RepairStrategy
  | NewACBufferFromReader reader RepairStrategy

fun NewBufferFromReader :: "StorageType \<Rightarrow> digest \<Rightarrow> reader \<Rightarrow> RepairStrategy \<Rightarrow> Buffer" where
  "NewBufferFromReader CAS d r rs = NewCASBufferFromReader d r rs"
| "NewBufferFromReader AC d r rs = NewACBufferFromReader r rs"

text \<open>The error a buffer embeds, and the repair hook it carries.\<close>

fun buffer_error :: "Buffer \<Rightarrow> error option" where
  "buffer_error (NewBufferFromError e) = Some e"
| "buffer_error (NewCASBufferFromByteSlice d x s) = None"
| "buffer_error (NewCASBufferFromReader d r rs) = None"
| "buffer_error (NewACBufferFromReader r rs) = None"

fun strategy_hook :: "RepairStrategy \<Rightarrow> (bucket \<Rightarrow> error option \<times> bucket) option" where
  "strategy_hook Irreparable = None"
| "strategy_hook (Reparable d f) = Some f"

fun buffer_Repair :: "Buffer \<Rightarrow> (bucket \<Rightarrow> error option \<times> bucket) option" where
  "buffer_Repair (NewBufferFromError e) = None"
| "buffer_Repair (NewCASBufferFromByteSlice d x s) = None"
| "buffer_Repair (NewCASBufferFromReader d r rs) = strategy_hook rs"
| "buffer_Repair (NewACBufferFromReader r rs) = strategy_hook rs"

text \<open>\<open>Get\<close>: the result is a buffer in every branch; a failure to open the reader is
  embedded in it.\<close>

definition Get ::
  "(string \<Rightarrow> string) \<Rightarrow> cloudBlobAccess \<Rightarrow> digest \<Rightarrow> bucket \<Rightarrow> Buffer \<times> bucket" where
  "Get sprintf ba d b =
     (let key = getKey ba d in
      case bucket_NewReader b key of
        (Inl err, b') \<Rightarrow>
          (NewBufferFromError
             (if gcerrors_Code err = GC_NotFound
              then status_Errorf sprintf Code_NotFound (error_Error err)
              else err), b')
      | (Inr result, b') \<Rightarrow>
          (NewBufferFromReader (storageType ba) d result
             (Reparable d (\<lambda>bkt. bucket_Delete bkt key)), b'))"

subsection \<open>Writing\<close>

text \<open>
  A context is cancelled or not; a context derived with \<open>context.WithCancel\<close> inherits
  the state of its parent, and its \<open>cancel\<close> function cancels it. The writer of the
  SDK buffers what it accepts; \<open>Close\<close> commits the object under the writer's key
  unless the writer's context has been cancelled or the commit itself fails.
\<close>

datatype go_context = Context (cancelled: bool)

definition context_WithCancel :: "go_context \<Rightarrow> go_context" where
  "context_WithCancel parent = Context (cancelled parent)"

definition cancel :: "string \<Rightarrow> go_context \<Rightarrow> bucket \<Rightarrow> go_context \<times> bucket" where
  "cancel k ctx b = (Context True, record_event (EvCancel k) b)"

record writer =
  w_key :: string
  w_data :: string

definition bucket_NewWriter :: "bucket \<Rightarrow> string \<Rightarrow> (error + writer) \<times> bucket" where
  "bucket_NewWriter b k =
     (case faults b OpNewWriter k of
        Some e \<Rightarrow> (Inl e, record_event (EvNewWriter k) b)
      | None \<Rightarrow> (Inr \<lparr>w_key = k, w_data = []\<rparr>, record_event (EvNewWriter k) b))"

text \<open>A write fault \<open>(n, e)\<close> on a key: the writer accepts \<open>n\<close> bytes in total and fails
  with \<open>e\<close> on the byte after.\<close>

definition writer_Write :: "writer \<Rightarrow> string \<Rightarrow> bucket \<Rightarrow> (writer \<times> error option) \<times> bucket" where
  "writer_Write w p b =
     (case write_fault b (w_key w) of
        Some (n, e) \<Rightarrow>
          (if n < length (w_data w) + length p
           then ((w\<lparr>w_data := w_data w @ take (n - length (w_data w)) p\<rparr>, Some e),
                 record_event (EvWrite (w_key w)) b)
           else ((w\<lparr>w_data := w_data w @ p\<rparr>, None), record_event (EvWrite (w_key w)) b))
      | None \<Rightarrow> ((w\<lparr>w_data := w_data w @ p\<rparr>, None), record_event (EvWrite (w_key w)) b))"

text \<open>\<open>io.Copy(w, r)\<close>: what the reader delivers is written; a write error ends the
  copy, otherwise the reader's own terminal error, if any, is the result.\<close>

definition io_Copy :: "writer \<Rightarrow> reader \<Rightarrow> bucket \<Rightarrow> (writer \<times> error option) \<times> bucket" where
  "io_Copy w r b =
     (case writer_Write w (r_data r) b of
        ((w', Some e), b') \<Rightarrow> ((w', Some e), b')
      | ((w', None), b') \<Rightarrow> ((w', r_err r), b'))"

definition writer_Close :: "go_context \<Rightarrow> writer \<Rightarrow> bucket \<Rightarrow> error option \<times> bucket" where
  "writer_Close ctx w b =
     (if cancelled ctx
      then (Some (PlainError ''context canceled''), record_event (EvClose (w_key w)) b)
      else
        (case faults b OpClose (w_key w) of
           Some e \<Rightarrow> (Some e, record_event (EvClose (w_key w)) b)
         | None \<Rightarrow>
             (None, record_event (EvClose (w_key w))
                      (b\<lparr>objects := (objects b)(w_key w \<mapsto> w_data w)\<rparr>))))"

text \<open>\<open>Put\<close>. The reader of the buffer (\<open>b.ToReader()\<close>) belongs to the buffer layer
  and is a parameter; its deferred \<open>Close\<close> has no effect on the bucket. The result of
  the writer's \<open>Close\<close> is dropped on both paths, as in the source.\<close>

definition Put ::
  "(Buffer \<Rightarrow> reader) \<Rightarrow> cloudBlobAccess \<Rightarrow> go_context \<Rightarrow> digest \<Rightarrow> Buffer \<Rightarrow> bucket
     \<Rightarrow> error option \<times> bucket" where
  "Put ToReader ba ctx0 d buf b =
     (let r = ToReader buf;
          ctx = context_WithCancel ctx0 in
      case bucket_NewWriter b (getKey ba d) of
        (Inl err, b1) \<Rightarrow> (Some err, snd (cancel (getKey ba d) ctx b1))
      | (Inr w, b1) \<Rightarrow>
          (case io_Copy w r b1 of
             ((w', Some err), b2) \<Rightarrow>
               (let (ctx', b3) = cancel (getKey ba d) ctx b2;
                    (cerr, b4) = writer_Close ctx' w' b3
                in (Some err, b4))
           | ((w', None), b2) \<Rightarrow>
               (let (cerr, b3) = writer_Close ctx w' b2;
                    (ctx', b4) = cancel (getKey ba d) ctx b3
                in (None, b4))))"

section \<open>The BlobAccess interface as the gRPC server consumes it\<close>

text \<open>
  The server is written against the \<open>BlobAccess\<close> interface. A backend is any pair of
  operations over a backend state; the cloud blob access above is one. Every call made
  through the interface is appended to a trace, so that the calls a server method makes
  are observable.
\<close>

record 's BlobAccess =
  ba_Put :: "digest \<Rightarrow> Buffer \<Rightarrow> 's \<Rightarrow> error option \<times> 's"
  ba_FindMissing :: "digest_set \<Rightarrow> 's \<Rightarrow> (digest_set \<times> error option) \<times> 's"

datatype ba_call =
    CallPut digest Buffer
  | CallFindMissing digest_set

definition call_Put ::
  "'s BlobAccess \<Rightarrow> digest \<Rightarrow> Buffer \<Rightarrow> 's \<times> ba_call list
     \<Rightarrow> error option \<times> ('s \<times> ba_call list)" where
  "call_Put ba d buf st =
     (let (err, s') = ba_Put ba d buf (fst st) in (err, (s', snd st @ [CallPut d buf])))"

definition call_FindMissing ::
  "'s BlobAccess \<Rightarrow> digest_set \<Rightarrow> 's \<times> ba_call list
     \<Rightarrow> (digest_set \<times> error option) \<times> ('s \<times> ba_call list)" where
  "call_FindMissing ba digests st =
     (let (res, s') = ba_FindMissing ba digests (fst st)
      in (res, (s', snd st @ [CallFindMissing digests])))"

subsection \<open>Wire digests\<close>

record partial_digest =
  Hash :: string
  SizeBytes :: int

text \<open>Modelled from the spec: the digest package is not among the sources. The hash
  length selects the digest function (MD5, SHA-1, SHA-256, SHA-384, SHA-512, that is 32,
  40, 64, 96 or 128 hexadecimal characters); construction validates the hash length and
  that the size is not negative. The partial digest is the projection that strips the
  instance.\<close>

definition NewDigestFromPartialDigest :: "string \<Rightarrow> partial_digest \<Rightarrow> error + digest" where
  "NewDigestFromPartialDigest instance partialDigest =
     (if length (Hash partialDigest) \<notin> {32, 40, 64, 96, 128}
      then Inl (StatusError Code_InvalidArgument ''Unknown digest hash length'')
      else if SizeBytes partialDigest < 0
      then Inl (StatusError Code_InvalidArgument ''Invalid digest size'')
      else Inr \<lparr>instanceName = instance, hash = Hash partialDigest,
                 sizeBytes = SizeBytes partialDigest\<rparr>)"

definition GetPartialDigest :: "digest \<Rightarrow> partial_digest" where
  "GetPartialDigest d = \<lparr>Hash = hash d, SizeBytes = sizeBytes d\<rparr>"

subsection \<open>FindMissingBlobs\<close>

record FindMissingBlobsRequest =
  fm_InstanceName :: string
  fm_BlobDigests :: "partial_digest list"

record FindMissingBlobsResponse =
  MissingBlobDigests :: "partial_digest list"

text \<open>The first loop: every partial digest is parsed and added to the builder; the
  first one that does not parse ends the method with its error.\<close>

fun collectDigests :: "string \<Rightarrow> partial_digest list \<Rightarrow> SetBuilder \<Rightarrow> error + SetBuilder" where
  "collectDigests instance [] inDigests = Inr inDigests"
| "collectDigests instance (partialDigest # rest) inDigests =
     (case NewDigestFromPartialDigest instance partialDigest of
        Inl err \<Rightarrow> Inl err
      | Inr d \<Rightarrow> collectDigests instance rest (Add inDigests d))"

definition FindMissingBlobs ::
  "'s BlobAccess \<Rightarrow> FindMissingBlobsRequest \<Rightarrow> 's \<times> ba_call list
     \<Rightarrow> (error + FindMissingBlobsResponse) \<times> ('s \<times> ba_call list)" where
  "FindMissingBlobs contentAddressableStorage req st =
     (case collectDigests (fm_InstanceName req) (fm_BlobDigests req) NewSetBuilder of
        Inl err \<Rightarrow> (Inl err, st)
      | Inr inDigests \<Rightarrow>
          (case call_FindMissing contentAddressableStorage (Build inDigests) st of
             ((outDigests, Some err), st') \<Rightarrow> (Inl err, st')
           | ((outDigests, None), st') \<Rightarrow>
               (Inr \<lparr>MissingBlobDigests = map GetPartialDigest (Items outDigests)\<rparr>, st')))"

subsection \<open>BatchUpdateBlobs\<close>

record rpc_status =
  st_code :: codes
  st_message :: string

text \<open>\<open>status.Convert(err).Proto()\<close>: no error is the status OK; a status error keeps
  its code and message; any other error is reported with the code Unknown.\<close>

fun status_Convert :: "error option \<Rightarrow> rpc_status" where
  "status_Convert None = \<lparr>st_code = Code_OK, st_message = []\<rparr>"
| "status_Convert (Some (StatusError c m)) = \<lparr>st_code = c, st_message = m\<rparr>"
| "status_Convert (Some (GcError c m)) = \<lparr>st_code = Code_Unknown, st_message = m\<rparr>"
| "status_Convert (Some (PlainError m)) = \<lparr>st_code = Code_Unknown, st_message = m\<rparr>"

record BatchUpdateBlobsRequest_Request =
  req_Digest :: partial_digest
  req_Data :: string

record BatchUpdateBlobsRequest =
  bu_InstanceName :: string
  bu_Requests :: "BatchUpdateBlobsRequest_Request list"

record BatchUpdateBlobsResponse_Response =
  resp_Digest :: partial_digest
  resp_Status :: rpc_status

record BatchUpdateBlobsResponse =
  Responses :: "BatchUpdateBlobsResponse_Response list"

text \<open>The body of the function started for one request element: it ends by sending
  one response to the channel.\<close>

definition updateBlob ::
  "'s BlobAccess \<Rightarrow> string \<Rightarrow> BatchUpdateBlobsRequest_Request \<Rightarrow> 's \<times> ba_call list
     \<Rightarrow> BatchUpdateBlobsResponse_Response \<times> ('s \<times> ba_call list)" where
  "updateBlob contentAddressableStorage instance request st =
     (case NewDigestFromPartialDigest instance (req_Digest request) of
        Inl err \<Rightarrow>
          (\<lparr>resp_Digest = req_Digest request, resp_Status = status_Convert (Some err)\<rparr>, st)
      | Inr d \<Rightarrow>
          (let (err, st') =
                 call_Put contentAddressableStorage d
                   (NewCASBufferFromByteSlice d (req_Data request) UserProvided) st
           in (\<lparr>resp_Digest = req_Digest request, resp_Status = status_Convert err\<rparr>, st')))"

text \<open>
  The fan-out. One function per request element runs concurrently with the others; the
  order in which they take effect and reach the channel is not fixed by the program. It
  is a parameter here: \<open>sched\<close> lists the indices of the request elements in the order
  in which their functions run, each to completion. An index that names no request
  element starts nothing. The channel holds the responses in that order.
\<close>

fun fanOut ::
  "'s BlobAccess \<Rightarrow> string \<Rightarrow> BatchUpdateBlobsRequest_Request list \<Rightarrow> nat list
     \<Rightarrow> 's \<times> ba_call list
     \<Rightarrow> BatchUpdateBlobsResponse_Response list \<times> ('s \<times> ba_call list)" where
  "fanOut cas instance requests [] st = ([], st)"
| "fanOut cas instance requests (i # sched) st =
     (if i < length requests
      then (let (r, st') = updateBlob cas instance (requests ! i) st;
                (rs, st'') = fanOut cas instance requests sched st'
            in (r # rs, st''))
      else fanOut cas instance requests sched st)"

text \<open>Recombination: as many responses are received from the channel as there are
  request elements. A receive from a channel that gets no further response never
  returns, and then neither does the method: that is the result \<open>None\<close>.\<close>

definition BatchUpdateBlobs ::
  "'s BlobAccess \<Rightarrow> BatchUpdateBlobsRequest \<Rightarrow> nat list \<Rightarrow> 's \<times> ba_call list
     \<Rightarrow> ((BatchUpdateBlobsResponse \<times> error option) \<times> ('s \<times> ba_call list)) option" where
  "BatchUpdateBlobs contentAddressableStorage req sched st =
     (let (responsesChan, st') =
            fanOut contentAddressableStorage (bu_InstanceName req) (bu_Requests req) sched st
      in if length responsesChan < length (bu_Requests req) then None
         else Some ((\<lparr>Responses = take (length (bu_Requests req)) responsesChan\<rparr>, None), st'))"

section \<open>The content addressable storage over a BlobAccess\<close>

text \<open>
  This layer is written against the \<open>BlobAccess\<close> interface in which \<open>Get\<close> returns
  a size, a reader and an error, and \<open>Put\<close> takes a digest, a size and a reader. The
  size that \<open>Get\<close> returns is dropped at both call sites and is left out.
\<close>

record 's ReaderBlobAccess =
  rba_Get :: "digest \<Rightarrow> 's \<Rightarrow> (error + reader) \<times> 's"
  rba_Put :: "digest \<Rightarrow> int \<Rightarrow> reader \<Rightarrow> 's \<Rightarrow> error option \<times> 's"

datatype rba_call =
    CallGet digest
  | CallPutReader digest int reader

definition call_Get ::
  "'s ReaderBlobAccess \<Rightarrow> digest \<Rightarrow> 's \<times> rba_call list
     \<Rightarrow> (error + reader) \<times> ('s \<times> rba_call list)" where
  "call_Get ba d st =
     (let (res, s') = rba_Get ba d (fst st) in (res, (s', snd st @ [CallGet d])))"

definition call_PutReader ::
  "'s ReaderBlobAccess \<Rightarrow> digest \<Rightarrow> int \<Rightarrow> reader \<Rightarrow> 's \<times> rba_call list
     \<Rightarrow> error option \<times> ('s \<times> rba_call list)" where
  "call_PutReader ba d n r st =
     (let (err, s') = rba_Put ba d n r (fst st)
      in (err, (s', snd st @ [CallPutReader d n r])))"

record 's blobAccessContentAddressableStorage =
  blobAccess :: "'s ReaderBlobAccess"
  maximumMessageSizeBytes :: "64 word"

text \<open>\<open>ioutil.ReadAll(r)\<close>: everything the reader delivers, and its terminal error.\<close>

definition ioutil_ReadAll :: "reader \<Rightarrow> string \<times> error option" where
  "ioutil_ReadAll r = (r_data r, r_err r)"

text \<open>\<open>getMessage\<close>. The size of the digest is an \<open>int64\<close>; the comparison converts it
  to \<open>uint64\<close>. The decoder of the message type (\<open>proto.Unmarshal\<close> into the message
  passed in) is a parameter; the decoded message is returned instead of being written
  through the pointer.\<close>

definition getMessage ::
  "'s blobAccessContentAddressableStorage \<Rightarrow> digest \<Rightarrow> (string \<Rightarrow> error + 'm)
     \<Rightarrow> 's \<times> rba_call list \<Rightarrow> (error + 'm) \<times> ('s \<times> rba_call list)" where
  "getMessage cas d unmarshal st =
     (if (word_of_int (sizeBytes d) :: 64 word) > maximumMessageSizeBytes cas
      then (Inl (StatusError Code_InvalidArgument
                   (''Refusing to unmarshal message of size '' @ show_int (sizeBytes d) @
                    '', as it exceeds the maximum size of '' @
                    show_nat (unat (maximumMessageSizeBytes cas)))), st)
      else
        (case call_Get (blobAccess cas) d st of
           (Inl err, st') \<Rightarrow> (Inl err, st')
         | (Inr r, st') \<Rightarrow>
             (case ioutil_ReadAll r of
                (data, Some err) \<Rightarrow> (Inl err, st')
              | (data, None) \<Rightarrow> (unmarshal data, st'))))"

text \<open>The five typed getters differ in the message type only.\<close>

definition GetAction ::
  "'s blobAccessContentAddressableStorage \<Rightarrow> digest \<Rightarrow> (string \<Rightarrow> error + 'm)
     \<Rightarrow> 's \<times> rba_call list \<Rightarrow> (error + 'm) \<times> ('s \<times> rba_call list)" where
  "GetAction cas d unmarshal st =
     (case getMessage cas d unmarshal st of
        (Inl err, st') \<Rightarrow> (Inl err, st')
      | (Inr action, st') \<Rightarrow> (Inr action, st'))"

definition GetUncachedActionResult ::
  "'s blobAccessContentAddressableStorage \<Rightarrow> digest \<Rightarrow> (string \<Rightarrow> error + 'm)
     \<Rightarrow> 's \<times> rba_call list \<Rightarrow> (error + 'm) \<times> ('s \<times> rba_call list)" where
  "GetUncachedActionResult cas d unmarshal st =
     (case getMessage cas d unmarshal st of
        (Inl err, st') \<Rightarrow> (Inl err, st')
      | (Inr uncachedActionResult, st') \<Rightarrow> (Inr uncachedActionResult, st'))"

definition GetCommand ::
  "'s blobAccessContentAddressableStorage \<Rightarrow> digest \<Rightarrow> (string \<Rightarrow> error + 'm)
     \<Rightarrow> 's \<times> rba_call list \<Rightarrow> (error + 'm) \<times> ('s \<times> rba_call list)" where
  "GetCommand cas d unmarshal st =
     (case getMessage cas d unmarshal st of
        (Inl err, st') \<Rightarrow> (Inl err, st')
      | (Inr command, st') \<Rightarrow> (Inr command, st'))"

definition GetDirectory ::
  "'s blobAccessContentAddressableStorage \<Rightarrow> digest \<Rightarrow> (string \<Rightarrow> error + 'm)
     \<Rightarrow> 's \<times> rba_call list \<Rightarrow> (error + 'm) \<times> ('s \<times> rba_call list)" where
  "GetDirectory cas d unmarshal st =
     (case getMessage cas d unmarshal st of
        (Inl err, st') \<Rightarrow> (Inl err, st')
      | (Inr directory, st') \<Rightarrow> (Inr directory, st'))"

definition GetTree ::
  "'s blobAccessContentAddressableStorage \<Rightarrow> digest \<Rightarrow> (string \<Rightarrow> error + 'm)
     \<Rightarrow> 's \<times> rba_call list \<Rightarrow> (error + 'm) \<times> ('s \<times> rba_call list)" where
  "GetTree cas d unmarshal st =
     (case getMessage cas d unmarshal st of
        (Inl err, st') \<Rightarrow> (Inl err, st')
      | (Inr tree, st') \<Rightarrow> (Inr tree, st'))"

subsection \<open>Files\<close>

text \<open>
  The directory of the filesystem package is an external collaborator: a map from names
  to files, each with a mode and its bytes. Its failures are an oracle: a fault
  \<open>(n, e)\<close> on writing lets a file take \<open>n\<close> bytes and fails with \<open>e\<close> on the byte
  after; a fault \<open>(n, e)\<close> on reading fails with \<open>e\<close> at offset \<open>n\<close>.
\<close>

record file_node =
  f_mode :: nat
  f_data :: string

record directory_state =
  entries :: "string \<rightharpoonup> file_node"
  dir_write_fault :: "(nat \<times> error) option"
  dir_read_fault :: "(nat \<times> error) option"

definition directory_OpenAppend_CreateExcl ::
  "directory_state \<Rightarrow> string \<Rightarrow> nat \<Rightarrow> error + directory_state" where
  "directory_OpenAppend_CreateExcl dir name mode =
     (case entries dir name of
        Some f \<Rightarrow> Inl (PlainError ''file exists'')
      | None \<Rightarrow> Inr (dir\<lparr>entries := (entries dir)(name \<mapsto> \<lparr>f_mode = mode, f_data = []\<rparr>)\<rparr>))"

definition directory_Remove :: "directory_state \<Rightarrow> string \<Rightarrow> error option \<times> directory_state" where
  "directory_Remove dir name =
     (case entries dir name of
        None \<Rightarrow> (Some (PlainError ''no such file or directory''), dir)
      | Some f \<Rightarrow> (None, dir\<lparr>entries := (entries dir)(name := None)\<rparr>))"

text \<open>Appending to the file opened under a name; a file removed in the meantime takes
  nothing.\<close>

definition file_Write :: "directory_state \<Rightarrow> string \<Rightarrow> string \<Rightarrow> directory_state \<times> error option" where
  "file_Write dir name p =
     (case entries dir name of
        None \<Rightarrow> (dir, Some (PlainError ''bad file descriptor''))
      | Some f \<Rightarrow>
          (case dir_write_fault dir of
             Some (n, e) \<Rightarrow>
               (if n < length (f_data f) + length p
                then (dir\<lparr>entries := (entries dir)
                        (name \<mapsto> f\<lparr>f_data := f_data f @ take (n - length (f_data f)) p\<rparr>)\<rparr>,
                      Some e)
                else (dir\<lparr>entries := (entries dir)(name \<mapsto> f\<lparr>f_data := f_data f @ p\<rparr>)\<rparr>, None))
           | None \<Rightarrow>
               (dir\<lparr>entries := (entries dir)(name \<mapsto> f\<lparr>f_data := f_data f @ p\<rparr>)\<rparr>, None)))"

text \<open>\<open>io.Copy\<close> into the file.\<close>

definition io_Copy_file ::
  "directory_state \<Rightarrow> string \<Rightarrow> reader \<Rightarrow> directory_state \<times> error option" where
  "io_Copy_file dir name r =
     (case file_Write dir name (r_data r) of
        (dir', Some e) \<Rightarrow> (dir', Some e)
      | (dir', None) \<Rightarrow> (dir', r_err r))"

text \<open>\<open>GetFile\<close>. The modes are the octal 0444 and 0555. The deferred \<open>Close\<close> of the
  file has no effect on the directory.\<close>

definition GetFile ::
  "'s blobAccessContentAddressableStorage \<Rightarrow> digest \<Rightarrow> directory_state \<Rightarrow> string \<Rightarrow> bool
     \<Rightarrow> 's \<times> rba_call list
     \<Rightarrow> (error option \<times> directory_state) \<times> ('s \<times> rba_call list)" where
  "GetFile cas d dir name isExecutable st =
     (let mode = (if isExecutable then 365 else 292) in
      case directory_OpenAppend_CreateExcl dir name mode of
        Inl err \<Rightarrow> ((Some err, dir), st)
      | Inr dir1 \<Rightarrow>
          (case call_Get (blobAccess cas) d st of
             (Inl err, st') \<Rightarrow> ((Some err, dir1), st')
           | (Inr r, st') \<Rightarrow>
               (case io_Copy_file dir1 name r of
                  (dir2, Some err) \<Rightarrow> ((Some err, snd (directory_Remove dir2 name)), st')
                | (dir2, None) \<Rightarrow> ((None, dir2), st'))))"

subsection \<open>Storing a file\<close>

text \<open>An open file for reading: its bytes at the moment it is read, and the read
  fault.\<close>

record FileReader =
  fr_data :: string
  fr_fault :: "(nat \<times> error) option"

definition directory_OpenRead :: "directory_state \<Rightarrow> string \<Rightarrow> error + FileReader" where
  "directory_OpenRead dir name =
     (case entries dir name of
        None \<Rightarrow> Inl (PlainError ''no such file or directory'')
      | Some f \<Rightarrow> Inr \<lparr>fr_data = f_data f, fr_fault = dir_read_fault dir\<rparr>)"

definition MaxInt64 :: int where
  "MaxInt64 = 2 ^ 63 - 1"

text \<open>\<open>io.NewSectionReader(r, off, n)\<close>: reads from \<open>r\<close> at offset \<open>off\<close> and stops
  with EOF after \<open>n\<close> bytes, or at the end of the file if that comes first.\<close>

definition io_NewSectionReader :: "FileReader \<Rightarrow> int \<Rightarrow> int \<Rightarrow> reader" where
  "io_NewSectionReader f off n =
     (let section = take (nat n) (drop (nat off) (fr_data f)) in
      case fr_fault f of
        Some (p, e) \<Rightarrow>
          (if p < nat off + length section
           then \<lparr>r_data = take (p - nat off) section, r_err = Some e\<rparr>
           else \<lparr>r_data = section, r_err = None\<rparr>)
      | None \<Rightarrow> \<lparr>r_data = section, r_err = None\<rparr>)"

definition newSectionReadCloser :: "FileReader \<Rightarrow> int \<Rightarrow> int \<Rightarrow> reader" where
  "newSectionReadCloser r off n = io_NewSectionReader r off n"

text \<open>Modelled from the spec: the digest generator is not among the sources. It is the
  stateful hash generator of the parent digest's function: it takes bytes, never
  fails, and its sum is the digest of what it took, in the parent's instance. The
  digest function itself is a parameter.\<close>

record DigestGenerator =
  dg_instanceName :: string
  dg_written :: string

definition NewDigestGenerator :: "digest \<Rightarrow> DigestGenerator" where
  "NewDigestGenerator parentDigest =
     \<lparr>dg_instanceName = instanceName parentDigest, dg_written = []\<rparr>"

definition DigestGenerator_Write :: "DigestGenerator \<Rightarrow> string \<Rightarrow> DigestGenerator" where
  "DigestGenerator_Write g p = g\<lparr>dg_written := dg_written g @ p\<rparr>"

definition DigestGenerator_Sum :: "(string \<Rightarrow> string) \<Rightarrow> DigestGenerator \<Rightarrow> digest" where
  "DigestGenerator_Sum hashfn g =
     \<lparr>instanceName = dg_instanceName g, hash = hashfn (dg_written g),
      sizeBytes = int (length (dg_written g))\<rparr>"

text \<open>\<open>io.Copy\<close> into the digest generator: the number of bytes copied and the
  error.\<close>

definition io_Copy_digest :: "DigestGenerator \<Rightarrow> reader \<Rightarrow> DigestGenerator \<times> int \<times> error option" where
  "io_Copy_digest g r = (DigestGenerator_Write g (r_data r), int (length (r_data r)), r_err r)"

text \<open>
  \<open>PutFile\<close>. The file is read twice: once to compute the digest, and once more when
  the backend reads what it is given to store. Other processes may change the file in
  between; \<open>later\<close> maps the open file as it is at the first reading to the open file
  as it is at the second.
\<close>

definition PutFile ::
  "(string \<Rightarrow> string) \<Rightarrow> (FileReader \<Rightarrow> FileReader)
     \<Rightarrow> 's blobAccessContentAddressableStorage \<Rightarrow> directory_state \<Rightarrow> string \<Rightarrow> digest
     \<Rightarrow> 's \<times> rba_call list \<Rightarrow> (error + digest) \<times> ('s \<times> rba_call list)" where
  "PutFile hashfn later cas dir name parentDigest st =
     (case directory_OpenRead dir name of
        Inl err \<Rightarrow> (Inl err, st)
      | Inr file \<Rightarrow>
          (case io_Copy_digest (NewDigestGenerator parentDigest)
                  (io_NewSectionReader file 0 MaxInt64) of
             (digestGenerator, n, Some err) \<Rightarrow> (Inl err, st)
           | (digestGenerator, n, None) \<Rightarrow>
               (let d = DigestGenerator_Sum hashfn digestGenerator in
                case call_PutReader (blobAccess cas) d (sizeBytes d)
                       (newSectionReadCloser (later file) 0 n) st of
                  (Some err, st') \<Rightarrow> (Inl err, st')
                | (None, st') \<Rightarrow> (Inr d, st'))))"

section \<open>Example inputs\<close>

definition ex_ba :: cloudBlobAccess where
  "ex_ba = \<lparr>keyPrefix = ''cas/'', storageType = CAS\<rparr>"

definition ex_hello :: digest where
  "ex_hello = \<lparr>instanceName = ''main'', hash = ''8b1a9953c4611296a827abf8c47804d7'',
                sizeBytes = 5\<rparr>"

definition ex_foo :: digest where
  "ex_foo = \<lparr>instanceName = ''main'', hash = ''acbd18db4cc2f85cedef654fccc4a4d8'',
              sizeBytes = 3\<rparr>"

definition ex_bucket :: bucket where
  "ex_bucket =
     \<lparr>objects = [''cas/8b1a9953c4611296a827abf8c47804d7-5'' \<mapsto> ''Hello''],
      faults = (\<lambda>op k. None), write_fault = (\<lambda>k. None), events = []\<rparr>"

definition ex_down :: error where
  "ex_down = GcError GC_Internal ''backend down''"

definition ex_bucket_down :: bucket where
  "ex_bucket_down =
     \<lparr>objects = [''cas/8b1a9953c4611296a827abf8c47804d7-5'' \<mapsto> ''Hello''],
      faults = (\<lambda>op k. Some ex_down), write_fault = (\<lambda>k. None), events = []\<rparr>"

text \<open>A reader for buffers that checks the size of a byte slice against its digest.\<close>

fun ex_ToReader :: "Buffer \<Rightarrow> reader" where
  "ex_ToReader (NewBufferFromError e) = \<lparr>r_data = [], r_err = Some e\<rparr>"
| "ex_ToReader (NewCASBufferFromByteSlice d x s) =
     \<lparr>r_data = x,
      r_err = (if int (length x) = sizeBytes d then None
               else Some (StatusError Code_InvalidArgument ''Buffer has the wrong size''))\<rparr>"
| "ex_ToReader (NewCASBufferFromReader d r rs) = r"
| "ex_ToReader (NewACBufferFromReader r rs) = r"

definition ex_wrong_size :: error where
  "ex_wrong_size = StatusError Code_InvalidArgument ''Buffer has the wrong size''"

text \<open>The cloud blob access as a backend of the server, over the bucket as its state.\<close>

definition ex_cloud :: "bucket BlobAccess" where
  "ex_cloud = \<lparr>ba_Put = Put ex_ToReader ex_ba (Context False),
               ba_FindMissing = FindMissing ex_ba\<rparr>"

definition ex_find_request :: FindMissingBlobsRequest where
  "ex_find_request =
     \<lparr>fm_InstanceName = ''main'',
      fm_BlobDigests =
        [\<lparr>Hash = ''8b1a9953c4611296a827abf8c47804d7'', SizeBytes = 5\<rparr>,
         \<lparr>Hash = ''acbd18db4cc2f85cedef654fccc4a4d8'', SizeBytes = 3\<rparr>]\<rparr>"

definition ex_update_request :: BatchUpdateBlobsRequest where
  "ex_update_request =
     \<lparr>bu_InstanceName = ''main'',
      bu_Requests =
        [\<lparr>req_Digest = \<lparr>Hash = ''acbd18db4cc2f85cedef654fccc4a4d8'', SizeBytes = 3\<rparr>,
          req_Data = ''foo''\<rparr>,
         \<lparr>req_Digest = \<lparr>Hash = ''not a hash'', SizeBytes = 3\<rparr>, req_Data = ''bar''\<rparr>]\<rparr>"

text \<open>What one request element does to the backend, in the words of the claim: an
  element whose digest does not parse fails with the error of the parse and leaves the
  backend as it is; any other element is one \<open>Put\<close> of its data under its digest.\<close>

definition element_put ::
  "'s BlobAccess \<Rightarrow> string \<Rightarrow> BatchUpdateBlobsRequest_Request \<Rightarrow> 's \<Rightarrow> error option \<times> 's" where
  "element_put cas instance request s =
     (case NewDigestFromPartialDigest instance (req_Digest request) of
        Inl err \<Rightarrow> (Some err, s)
      | Inr d \<Rightarrow>
          ba_Put cas d (NewCASBufferFromByteSlice d (req_Data request) UserProvided) s)"

text \<open>The backend after a sequence of request elements has run, one after the other.\<close>

definition state_after ::
  "'s BlobAccess \<Rightarrow> string \<Rightarrow> BatchUpdateBlobsRequest_Request list \<Rightarrow> 's \<Rightarrow> 's" where
  "state_after cas instance requests s =
     foldl (\<lambda>s' request. snd (element_put cas instance request s')) s requests"

text \<open>A bucket whose writers fail to commit on close, and a file cut short to its first
  byte between two readings.\<close>

definition ex_bucket_close_fails :: bucket where
  "ex_bucket_close_fails =
     \<lparr>objects = [''cas/8b1a9953c4611296a827abf8c47804d7-5'' \<mapsto> ''Hello''],
      faults = (\<lambda>op k. if op = OpClose then Some ex_down else None),
      write_fault = (\<lambda>k. None), events = []\<rparr>"

definition ex_truncate :: "FileReader \<Rightarrow> FileReader" where
  "ex_truncate f = f\<lparr>fr_data := take 1 (fr_data f)\<rparr>"

text \<open>An in-memory backend with the reader interface: a map from digests to bytes.\<close>

definition ex_blob_not_found :: error where
  "ex_blob_not_found = StatusError Code_NotFound ''Blob not found''"

definition ex_store :: "(digest \<rightharpoonup> string) ReaderBlobAccess" where
  "ex_store =
     \<lparr>rba_Get = (\<lambda>d s. (case s d of
                            None \<Rightarrow> Inl ex_blob_not_found
                          | Some x \<Rightarrow> Inr \<lparr>r_data = x, r_err = None\<rparr>, s)),
      rba_Put = (\<lambda>d n r s. (case r_err r of
                              Some e \<Rightarrow> (Some e, s)
                            | None \<Rightarrow> (None, s(d \<mapsto> r_data r))))\<rparr>"

definition ex_cas :: "(digest \<rightharpoonup> string) blobAccessContentAddressableStorage" where
  "ex_cas = \<lparr>blobAccess = ex_store, maximumMessageSizeBytes = 4\<rparr>"

definition ex_unmarshal :: "string \<Rightarrow> error + string" where
  "ex_unmarshal x = Inr x"

definition ex_dir :: directory_state where
  "ex_dir = \<lparr>entries = [''log'' \<mapsto> \<lparr>f_mode = 420, f_data = ''foo''\<rparr>],
             dir_write_fault = None, dir_read_fault = None\<rparr>"

definition ex_later :: "FileReader \<Rightarrow> FileReader" where
  "ex_later f = f\<lparr>fr_data := fr_data f @ ''bar''\<rparr>"

definition ex_hashfn :: "string \<Rightarrow> string" where
  "ex_hashfn x = ''acbd18db4cc2f85cedef654fccc4a4d8''"

section \<open>Properties of the cloud blob access\<close>

lemma record_event_fields [simp]:
  "objects (record_event e b) = objects b"
  "faults (record_event e b) = faults b"
  "write_fault (record_event e b) = write_fault b"
  "events (record_event e b) = events b @ [e]"
  by (simp_all add: record_event_def)

lemma bucket_Exists_answer:
  "fst (bucket_Exists b k) =
     (case faults b OpExists k of Some e \<Rightarrow> Inl e | None \<Rightarrow> Inr (objects b k \<noteq> None))"
  by (simp add: bucket_Exists_def split: option.splits)

lemma bucket_Exists_state:
  "snd (bucket_Exists b k) = record_event (EvExists k) b"
  by (simp add: bucket_Exists_def split: option.splits)

lemma set_foldl_Add: "set (foldl Add sb ds) = set sb \<union> set ds"
  by (induction ds arbitrary: sb) (auto simp: Add_def)

lemma distinct_foldl_Add: "distinct sb \<Longrightarrow> distinct (foldl Add sb ds)"
  by (induction ds arbitrary: sb) (auto simp: Add_def)

lemma FindMissing_loop_no_error:
  "\<forall>d \<in> set ds. faults b OpExists (getKey ba d) = None \<Longrightarrow>
   fst (FindMissing_loop ba ds sb b) =
     (Build (foldl Add sb (filter (\<lambda>d. objects b (getKey ba d) = None) ds)), None)"
proof (induction ds arbitrary: sb b)
  case Nil
  then show ?case by simp
next
  case (Cons d ds)
  let ?b' = "record_event (EvExists (getKey ba d)) b"
  have ex: "bucket_Exists b (getKey ba d) = (Inr (objects b (getKey ba d) \<noteq> None), ?b')"
    using Cons.prems by (simp add: bucket_Exists_def)
  have ih: "\<And>sb'. fst (FindMissing_loop ba ds sb' ?b') =
     (Build (foldl Add sb' (filter (\<lambda>d. objects b (getKey ba d) = None) ds)), None)"
    using Cons.IH [of ?b'] Cons.prems by simp
  show ?case by (simp add: ex ih)
qed

lemma FindMissing_loop_first_error:
  "\<forall>d' \<in> set pre. faults b OpExists (getKey ba d') = None \<Longrightarrow>
   faults b OpExists (getKey ba d) = Some e \<Longrightarrow>
   fst (FindMissing_loop ba (pre @ d # post) sb b) = (EmptySet, Some e)"
proof (induction pre arbitrary: sb b)
  case Nil
  then show ?case by (simp add: bucket_Exists_def)
next
  case (Cons x pre)
  let ?b' = "record_event (EvExists (getKey ba x)) b"
  have ex: "bucket_Exists b (getKey ba x) = (Inr (objects b (getKey ba x) \<noteq> None), ?b')"
    using Cons.prems by (simp add: bucket_Exists_def)
  have ih: "\<And>sb'. fst (FindMissing_loop ba (pre @ d # post) sb' ?b') = (EmptySet, Some e)"
    using Cons.IH [of ?b'] Cons.prems by simp
  show ?case by (simp add: ex ih)
qed

text \<open>
  Claim C1. For every digest set, when no existence check fails, \<open>FindMissing\<close>
  returns no error and exactly the digests of the set for whose key the bucket reports
  that nothing exists: every digest whose key exists is left out and every digest whose
  key does not exist is included. When an existence check fails, the result is the empty
  set together with the error of that check.
\<close>

theorem FindMissing_missing_iff_absent:
  "((\<forall>d \<in> set (Items S). \<forall>e. fst (bucket_Exists b (getKey ba d)) \<noteq> Inl e) \<longrightarrow>
      snd (fst (FindMissing ba S b)) = None \<and>
      set (Items (fst (fst (FindMissing ba S b)))) =
        {d \<in> set (Items S). fst (bucket_Exists b (getKey ba d)) = Inr False} \<and>
      distinct (Items (fst (fst (FindMissing ba S b))))) \<and>
   ((Items S = pre @ d # post \<and>
     (\<forall>d' \<in> set pre. \<forall>e'. fst (bucket_Exists b (getKey ba d')) \<noteq> Inl e') \<and>
     fst (bucket_Exists b (getKey ba d)) = Inl e) \<longrightarrow>
      fst (FindMissing ba S b) = (EmptySet, Some e))"
proof (intro conjI impI)
  assume ok: "\<forall>d \<in> set (Items S). \<forall>e. fst (bucket_Exists b (getKey ba d)) \<noteq> Inl e"
  have nf: "\<forall>d \<in> set (Items S). faults b OpExists (getKey ba d) = None"
    using ok by (auto simp: bucket_Exists_answer split: option.splits)
  have res: "fst (FindMissing ba S b) =
      (Build (foldl Add [] (filter (\<lambda>d. objects b (getKey ba d) = None) (Items S))), None)"
    unfolding FindMissing_def NewSetBuilder_def by (rule FindMissing_loop_no_error [OF nf])
  show "snd (fst (FindMissing ba S b)) = None" by (simp add: res)
  show "set (Items (fst (fst (FindMissing ba S b)))) =
        {d \<in> set (Items S). fst (bucket_Exists b (getKey ba d)) = Inr False}"
    using nf by (auto simp: res Build_def set_foldl_Add bucket_Exists_answer)
  show "distinct (Items (fst (fst (FindMissing ba S b))))"
    by (simp add: res Build_def distinct_foldl_Add)
next
  assume h: "Items S = pre @ d # post \<and>
     (\<forall>d' \<in> set pre. \<forall>e'. fst (bucket_Exists b (getKey ba d')) \<noteq> Inl e') \<and>
     fst (bucket_Exists b (getKey ba d)) = Inl e"
  have nf: "\<forall>d' \<in> set pre. faults b OpExists (getKey ba d') = None"
    using h by (auto simp: bucket_Exists_answer split: option.splits)
  have f: "faults b OpExists (getKey ba d) = Some e"
    using h by (auto simp: bucket_Exists_answer split: option.splits)
  show "fst (FindMissing ba S b) = (EmptySet, Some e)"
    unfolding FindMissing_def using h FindMissing_loop_first_error [OF nf f] by simp
qed


lemma ex_hello_key: "getKey ex_ba ex_hello = ''cas/8b1a9953c4611296a827abf8c47804d7-5''"
  by (simp add: getKey_def ex_ba_def ex_hello_def show_int_def show_nat.simps digit_char_def)

lemma ex_foo_key: "getKey ex_ba ex_foo = ''cas/acbd18db4cc2f85cedef654fccc4a4d8-3''"
  by (simp add: getKey_def ex_ba_def ex_foo_def show_int_def show_nat.simps digit_char_def)

theorem FindMissing_missing_iff_absent_witness:
  "fst (bucket_Exists ex_bucket (getKey ex_ba ex_hello)) = Inr True \<and>
   fst (bucket_Exists ex_bucket (getKey ex_ba ex_foo)) = Inr False \<and>
   snd (fst (FindMissing ex_ba (DigestSet [ex_hello, ex_foo]) ex_bucket)) = None \<and>
   set (Items (fst (fst (FindMissing ex_ba (DigestSet [ex_hello, ex_foo]) ex_bucket)))) = {ex_foo} \<and>
   Items (DigestSet [ex_hello, ex_foo]) = [] @ ex_hello # [ex_foo] \<and>
   fst (bucket_Exists ex_bucket_down (getKey ex_ba ex_hello)) = Inl ex_down \<and>
   fst (FindMissing ex_ba (DigestSet [ex_hello, ex_foo]) ex_bucket_down) = (EmptySet, Some ex_down)"
proof -
  let ?S = "DigestSet [ex_hello, ex_foo]"
  have h1: "\<forall>d \<in> set (Items ?S). \<forall>e. fst (bucket_Exists ex_bucket (getKey ex_ba d)) \<noteq> Inl e"
    by (simp add: bucket_Exists_def ex_bucket_def)
  have a1: "fst (bucket_Exists ex_bucket (getKey ex_ba ex_hello)) = Inr True"
    by (simp add: bucket_Exists_def ex_bucket_def ex_hello_key)
  have a2: "fst (bucket_Exists ex_bucket (getKey ex_ba ex_foo)) = Inr False"
    by (simp add: bucket_Exists_def ex_bucket_def ex_foo_key)
  have h2: "Items ?S = [] @ ex_hello # [ex_foo]" by simp
  have h3: "fst (bucket_Exists ex_bucket_down (getKey ex_ba ex_hello)) = Inl ex_down"
    by (simp add: bucket_Exists_def ex_bucket_down_def)
  have c1: "snd (fst (FindMissing ex_ba ?S ex_bucket)) = None \<and>
      set (Items (fst (fst (FindMissing ex_ba ?S ex_bucket)))) =
        {d \<in> set (Items ?S). fst (bucket_Exists ex_bucket (getKey ex_ba d)) = Inr False}"
    using FindMissing_missing_iff_absent [where S = ?S and b = ex_bucket and ba = ex_ba] h1
    by blast
  have c2: "fst (FindMissing ex_ba ?S ex_bucket_down) = (EmptySet, Some ex_down)"
    using FindMissing_missing_iff_absent
      [where S = ?S and b = ex_bucket_down and ba = ex_ba and pre = "[]" and d = ex_hello
         and post = "[ex_foo]" and e = ex_down] h2 h3
    by simp
  have s: "{d \<in> set (Items ?S). fst (bucket_Exists ex_bucket (getKey ex_ba d)) = Inr False} = {ex_foo}"
    using a1 a2 by auto
  show ?thesis using a1 a2 h2 h3 c1 c2 s by simp
qed

lemma bucket_NewReader_state:
  "snd (bucket_NewReader b k) = record_event (EvNewReader k) b"
  by (simp add: bucket_NewReader_def split: option.splits)

lemma bucket_Delete_events:
  "events (snd (bucket_Delete b k)) = events b @ [EvDelete k]"
  by (simp add: bucket_Delete_def split: option.splits)

lemma bucket_Delete_objects:
  "faults b OpDelete k = None \<Longrightarrow> objects (snd (bucket_Delete b k)) = (objects b)(k := None)"
  by (auto simp: bucket_Delete_def split: option.splits)

lemma bucket_Delete_other:
  "k' \<noteq> k \<Longrightarrow> objects (snd (bucket_Delete b k)) k' = objects b k'"
  by (simp add: bucket_Delete_def split: option.splits)

lemma Get_events:
  "events (snd (Get sprintf ba d b)) = events b @ [EvNewReader (getKey ba d)]"
proof -
  obtain res b' where nr: "bucket_NewReader b (getKey ba d) = (res, b')"
    by (cases "bucket_NewReader b (getKey ba d)")
  have b': "b' = record_event (EvNewReader (getKey ba d)) b"
    using bucket_NewReader_state [of b "getKey ba d"] nr by simp
  show ?thesis
    by (cases res) (simp_all add: Get_def Let_def nr b')
qed

lemma Get_failure:
  assumes "fst (bucket_NewReader b (getKey ba d)) = Inl err"
  shows "fst (Get sprintf ba d b) =
     NewBufferFromError
       (if gcerrors_Code err = GC_NotFound
        then StatusError Code_NotFound (sprintf (error_Error err)) else err)"
proof -
  obtain b' where nr: "bucket_NewReader b (getKey ba d) = (Inl err, b')"
    using assms by (cases "bucket_NewReader b (getKey ba d)") simp
  show ?thesis by (simp add: Get_def Let_def nr status_Errorf_def)
qed

lemma Get_success:
  assumes "fst (bucket_NewReader b (getKey ba d)) = Inr r"
  shows "fst (Get sprintf ba d b) =
     NewBufferFromReader (storageType ba) d r
       (Reparable d (\<lambda>bkt. bucket_Delete bkt (getKey ba d)))"
proof -
  obtain b' where nr: "bucket_NewReader b (getKey ba d) = (Inr r, b')"
    using assms by (cases "bucket_NewReader b (getKey ba d)") simp
  show ?thesis by (simp add: Get_def Let_def nr)
qed

lemma buffer_Repair_NewBufferFromReader:
  "buffer_Repair (NewBufferFromReader st d r (Reparable d' f)) = Some f"
  by (cases st) simp_all

lemma buffer_error_NewBufferFromReader:
  "buffer_error (NewBufferFromReader st d r rs) = None"
  by (cases st) simp_all

text \<open>
  Claim C4. \<open>Get\<close> returns a buffer in every case. When opening the bucket reader
  fails, the buffer embeds the error: an error whose SDK code is NotFound is replaced by
  a status error with the code NotFound of the taxonomy, and every other error is
  embedded as it is. When the reader opens, the buffer embeds no error.
\<close>

theorem Get_embeds_error:
  "(fst (bucket_NewReader b (getKey ba d)) = Inl err \<longrightarrow>
      buffer_error (fst (Get sprintf ba d b)) =
        Some (if gcerrors_Code err = GC_NotFound
              then StatusError Code_NotFound (sprintf (error_Error err)) else err) \<and>
      (gcerrors_Code err = GC_NotFound \<longrightarrow>
         (\<exists>e'. fst (Get sprintf ba d b) = NewBufferFromError e' \<and>
               status_Code e' = Code_NotFound)) \<and>
      (gcerrors_Code err \<noteq> GC_NotFound \<longrightarrow>
         fst (Get sprintf ba d b) = NewBufferFromError err)) \<and>
   (fst (bucket_NewReader b (getKey ba d)) = Inr r \<longrightarrow>
      buffer_error (fst (Get sprintf ba d b)) = None)"
proof (intro conjI impI)
  assume f: "fst (bucket_NewReader b (getKey ba d)) = Inl err"
  note g = Get_failure [OF f, of sprintf]
  show "buffer_error (fst (Get sprintf ba d b)) =
        Some (if gcerrors_Code err = GC_NotFound
              then StatusError Code_NotFound (sprintf (error_Error err)) else err)"
    by (simp add: g)
  { assume "gcerrors_Code err = GC_NotFound"
    then show "\<exists>e'. fst (Get sprintf ba d b) = NewBufferFromError e' \<and>
               status_Code e' = Code_NotFound"
      by (simp add: g) }
  { assume "gcerrors_Code err \<noteq> GC_NotFound"
    then show "fst (Get sprintf ba d b) = NewBufferFromError err"
      by (simp add: g) }
next
  assume s: "fst (bucket_NewReader b (getKey ba d)) = Inr r"
  show "buffer_error (fst (Get sprintf ba d b)) = None"
    by (simp add: Get_success [OF s] buffer_error_NewBufferFromReader)
qed

text \<open>
  Claim C5. When the reader opens, the buffer that \<open>Get\<close> returns carries a repair
  hook. Invoked on the bucket, the hook is the deletion of the key of the digest: it
  removes the object under that key, leaves every other key as it is, and addresses the
  bucket with that key only.
\<close>

theorem Get_repair_deletes_key:
  "fst (bucket_NewReader b (getKey ba d)) = Inr r \<Longrightarrow>
   \<exists>f. buffer_Repair (fst (Get sprintf ba d b)) = Some f \<and>
       (\<forall>b'. f b' = bucket_Delete b' (getKey ba d)) \<and>
       (\<forall>b'. faults b' OpDelete (getKey ba d) = None \<longrightarrow>
              fst (f b') = (if objects b' (getKey ba d) = None
                            then Some (not_found_error (getKey ba d)) else None) \<and>
              objects (snd (f b')) = (objects b')(getKey ba d := None)) \<and>
       (\<forall>b' k. k \<noteq> getKey ba d \<longrightarrow> objects (snd (f b')) k = objects b' k) \<and>
       (\<forall>b'. events (snd (f b')) = events b' @ [EvDelete (getKey ba d)])"
proof -
  assume s: "fst (bucket_NewReader b (getKey ba d)) = Inr r"
  let ?f = "\<lambda>bkt. bucket_Delete bkt (getKey ba d)"
  have "buffer_Repair (fst (Get sprintf ba d b)) = Some ?f"
    by (simp add: Get_success [OF s] buffer_Repair_NewBufferFromReader)
  moreover have "\<forall>b'. faults b' OpDelete (getKey ba d) = None \<longrightarrow>
              fst (?f b') = (if objects b' (getKey ba d) = None
                            then Some (not_found_error (getKey ba d)) else None) \<and>
              objects (snd (?f b')) = (objects b')(getKey ba d := None)"
    by (auto simp: bucket_Delete_objects bucket_Delete_def split: option.splits)
  moreover have "\<forall>b' k. k \<noteq> getKey ba d \<longrightarrow> objects (snd (?f b')) k = objects b' k"
    by (simp add: bucket_Delete_other)
  moreover have "\<forall>b'. events (snd (?f b')) = events b' @ [EvDelete (getKey ba d)]"
    by (simp add: bucket_Delete_events)
  ultimately show ?thesis by blast
qed

lemma io_Copy_key: "w_key (fst (fst (io_Copy w r b))) = w_key w"
  by (simp add: io_Copy_def writer_Write_def split: option.splits prod.splits)

lemma io_Copy_state:
  "snd (io_Copy w r b) = record_event (EvWrite (w_key w)) b"
  by (simp add: io_Copy_def writer_Write_def split: option.splits prod.splits)

lemma io_Copy_success_data:
  "snd (fst (io_Copy w r b)) = None \<Longrightarrow>
   w_data (fst (fst (io_Copy w r b))) = w_data w @ r_data r \<and> r_err r = None"
  by (auto simp: io_Copy_def writer_Write_def split: option.splits prod.splits if_splits)

lemma bucket_NewWriter_state:
  "snd (bucket_NewWriter b k) = record_event (EvNewWriter k) b"
  by (simp add: bucket_NewWriter_def split: option.splits)

lemma bucket_NewWriter_writer:
  "fst (bucket_NewWriter b k) = Inr w \<Longrightarrow> w = \<lparr>w_key = k, w_data = []\<rparr>"
  by (auto simp: bucket_NewWriter_def split: option.splits)

lemma writer_Close_cancelled:
  "cancelled ctx \<Longrightarrow>
   writer_Close ctx w b = (Some (PlainError ''context canceled''), record_event (EvClose (w_key w)) b)"
  by (simp add: writer_Close_def)

lemma writer_Close_events:
  "events (snd (writer_Close ctx w b)) = events b @ [EvClose (w_key w)]"
  by (simp add: writer_Close_def split: option.splits)

lemma writer_Close_objects:
  "objects (snd (writer_Close ctx w b)) =
     (if \<not> cancelled ctx \<and> faults b OpClose (w_key w) = None
      then (objects b)(w_key w \<mapsto> w_data w) else objects b)"
  by (simp add: writer_Close_def split: option.splits)

lemma Put_NewWriter_fails:
  assumes "fst (bucket_NewWriter b (getKey ba d)) = Inl err"
  shows "Put ToReader ba ctx d buf b =
     (Some err, b\<lparr>events := events b @ [EvNewWriter (getKey ba d), EvCancel (getKey ba d)]\<rparr>)"
proof -
  have nw: "bucket_NewWriter b (getKey ba d) = (Inl err, record_event (EvNewWriter (getKey ba d)) b)"
    using assms bucket_NewWriter_state [of b "getKey ba d"]
    by (cases "bucket_NewWriter b (getKey ba d)") simp
  have "Put ToReader ba ctx d buf b =
      (Some err, record_event (EvCancel (getKey ba d)) (record_event (EvNewWriter (getKey ba d)) b))"
    by (simp add: Put_def Let_def nw cancel_def)
  then show ?thesis by (simp add: record_event_def)
qed

lemma Put_copy_fails:
  assumes nw: "fst (bucket_NewWriter b (getKey ba d)) = Inr w"
    and cp: "snd (fst (io_Copy w (ToReader buf) (snd (bucket_NewWriter b (getKey ba d))))) = Some err"
  shows "Put ToReader ba ctx d buf b =
     (Some err, b\<lparr>events := events b @
        [EvNewWriter (getKey ba d), EvWrite (getKey ba d), EvCancel (getKey ba d),
         EvClose (getKey ba d)]\<rparr>)"
proof -
  let ?k = "getKey ba d"
  let ?b1 = "record_event (EvNewWriter ?k) b"
  have nw': "bucket_NewWriter b ?k = (Inr w, ?b1)"
    using nw bucket_NewWriter_state [of b ?k] by (cases "bucket_NewWriter b ?k") simp
  have wk: "w_key w = ?k" using bucket_NewWriter_writer [OF nw] by simp
  obtain w' where cp': "io_Copy w (ToReader buf) ?b1 = ((w', Some err), record_event (EvWrite ?k) ?b1)"
    using cp io_Copy_state [of w "ToReader buf" ?b1] nw' wk
    by (cases "io_Copy w (ToReader buf) ?b1") auto
  have wk': "w_key w' = ?k" using io_Copy_key [of w "ToReader buf" ?b1] cp' wk by simp
  have "Put ToReader ba ctx d buf b =
      (Some err, record_event (EvClose ?k) (record_event (EvCancel ?k)
                   (record_event (EvWrite ?k) ?b1)))"
    by (simp add: Put_def Let_def nw' cp' cancel_def writer_Close_cancelled wk')
  then show ?thesis by (simp add: record_event_def)
qed

lemma Put_copy_succeeds:
  assumes nw: "fst (bucket_NewWriter b (getKey ba d)) = Inr w"
    and cp: "snd (fst (io_Copy w (ToReader buf) (snd (bucket_NewWriter b (getKey ba d))))) = None"
  shows "fst (Put ToReader ba ctx d buf b) = None \<and>
     events (snd (Put ToReader ba ctx d buf b)) = events b @
        [EvNewWriter (getKey ba d), EvWrite (getKey ba d), EvClose (getKey ba d),
         EvCancel (getKey ba d)] \<and>
     objects (snd (Put ToReader ba ctx d buf b)) =
       (if \<not> cancelled ctx \<and> faults b OpClose (getKey ba d) = None
        then (objects b)(getKey ba d \<mapsto> r_data (ToReader buf)) else objects b) \<and>
     r_err (ToReader buf) = None"
proof -
  let ?k = "getKey ba d"
  let ?b1 = "record_event (EvNewWriter ?k) b"
  let ?b2 = "record_event (EvWrite ?k) ?b1"
  have nw': "bucket_NewWriter b ?k = (Inr w, ?b1)"
    using nw bucket_NewWriter_state [of b ?k] by (cases "bucket_NewWriter b ?k") simp
  have w: "w = \<lparr>w_key = ?k, w_data = []\<rparr>" using bucket_NewWriter_writer [OF nw] .
  have wk: "w_key w = ?k" using w by simp
  obtain w' where cp': "io_Copy w (ToReader buf) ?b1 = ((w', None), ?b2)"
    using cp io_Copy_state [of w "ToReader buf" ?b1] nw' wk
    by (cases "io_Copy w (ToReader buf) ?b1") auto
  have wk': "w_key w' = ?k" using io_Copy_key [of w "ToReader buf" ?b1] cp' wk by simp
  have wd: "w_data w' = r_data (ToReader buf)" and re: "r_err (ToReader buf) = None"
    using io_Copy_success_data [of w "ToReader buf" ?b1] cp' w by simp_all
  obtain cerr b3 where cl: "writer_Close (context_WithCancel ctx) w' ?b2 = (cerr, b3)"
    by (cases "writer_Close (context_WithCancel ctx) w' ?b2")
  have ev3: "events b3 = events ?b2 @ [EvClose ?k]"
    using writer_Close_events [of "context_WithCancel ctx" w' ?b2] cl wk' by simp
  have ob3: "objects b3 = (if \<not> cancelled ctx \<and> faults b OpClose ?k = None
        then (objects b)(?k \<mapsto> r_data (ToReader buf)) else objects b)"
    using writer_Close_objects [of "context_WithCancel ctx" w' ?b2] cl wk' wd
    by (simp add: context_WithCancel_def)
  have p: "Put ToReader ba ctx d buf b = (None, record_event (EvCancel ?k) b3)"
    by (simp add: Put_def Let_def nw' cp' cl cancel_def)
  show ?thesis by (simp add: p ev3 ob3 re)
qed

lemma writer_Close_faults:
  "faults (snd (writer_Close ctx w b)) = faults b \<and>
   write_fault (snd (writer_Close ctx w b)) = write_fault b"
  by (simp add: writer_Close_def split: option.splits)

lemma Put_keeps_faults:
  "faults (snd (Put ToReader ba ctx d buf b)) = faults b \<and>
   write_fault (snd (Put ToReader ba ctx d buf b)) = write_fault b"
proof (cases "fst (bucket_NewWriter b (getKey ba d))")
  case (Inl err)
  show ?thesis by (simp add: Put_NewWriter_fails [where ToReader = ToReader and buf = buf, OF Inl])
next
  case (Inr w)
  let ?k = "getKey ba d"
  let ?b1 = "record_event (EvNewWriter ?k) b"
  let ?b2 = "record_event (EvWrite ?k) ?b1"
  have nw': "bucket_NewWriter b ?k = (Inr w, ?b1)"
    using Inr bucket_NewWriter_state [of b ?k] by (cases "bucket_NewWriter b ?k") simp
  have wk: "w_key w = ?k" using bucket_NewWriter_writer [OF Inr] by simp
  show ?thesis
  proof (cases "snd (fst (io_Copy w (ToReader buf) (snd (bucket_NewWriter b ?k))))")
    case (Some err)
    show ?thesis by (simp add: Put_copy_fails [where ToReader = ToReader and buf = buf, OF Inr Some])
  next
    case None
    obtain w' where cp': "io_Copy w (ToReader buf) ?b1 = ((w', None), ?b2)"
      using None io_Copy_state [of w "ToReader buf" ?b1] nw' wk
      by (cases "io_Copy w (ToReader buf) ?b1") auto
    obtain cerr b3 where cl: "writer_Close (context_WithCancel ctx) w' ?b2 = (cerr, b3)"
      by (cases "writer_Close (context_WithCancel ctx) w' ?b2")
    have f3: "faults b3 = faults b \<and> write_fault b3 = write_fault b"
      using writer_Close_faults [of "context_WithCancel ctx" w' ?b2] cl by simp
    have p: "Put ToReader ba ctx d buf b = (None, record_event (EvCancel ?k) b3)"
      by (simp add: Put_def Let_def nw' cp' cl cancel_def)
    show ?thesis by (simp add: p f3)
  qed
qed

lemma Put_commits:
  assumes nw: "fst (bucket_NewWriter b (getKey ba d)) = Inr w"
    and cp: "snd (fst (io_Copy w (ToReader buf) (snd (bucket_NewWriter b (getKey ba d))))) = None"
    and nc: "\<not> cancelled ctx" and cl: "faults b OpClose (getKey ba d) = None"
  shows "Put ToReader ba ctx d buf b =
     (None, b\<lparr>objects := (objects b)(getKey ba d \<mapsto> r_data (ToReader buf)),
              events := events b @
                [EvNewWriter (getKey ba d), EvWrite (getKey ba d), EvClose (getKey ba d),
                 EvCancel (getKey ba d)]\<rparr>)"
proof -
  let ?k = "getKey ba d"
  let ?b1 = "record_event (EvNewWriter ?k) b"
  let ?b2 = "record_event (EvWrite ?k) ?b1"
  have nw': "bucket_NewWriter b ?k = (Inr w, ?b1)"
    using nw bucket_NewWriter_state [of b ?k] by (cases "bucket_NewWriter b ?k") simp
  have w: "w = \<lparr>w_key = ?k, w_data = []\<rparr>" using bucket_NewWriter_writer [OF nw] .
  have wk: "w_key w = ?k" using w by simp
  obtain w' where cp': "io_Copy w (ToReader buf) ?b1 = ((w', None), ?b2)"
    using cp io_Copy_state [of w "ToReader buf" ?b1] nw' wk
    by (cases "io_Copy w (ToReader buf) ?b1") auto
  have wk': "w_key w' = ?k" using io_Copy_key [of w "ToReader buf" ?b1] cp' wk by simp
  have wd: "w_data w' = r_data (ToReader buf)"
    using io_Copy_success_data [of w "ToReader buf" ?b1] cp' w by simp
  have close: "writer_Close (context_WithCancel ctx) w' ?b2 =
      (None, record_event (EvClose ?k) (?b2\<lparr>objects := (objects ?b2)(?k \<mapsto> r_data (ToReader buf))\<rparr>))"
    using nc cl by (simp add: writer_Close_def context_WithCancel_def wk' wd)
  have "Put ToReader ba ctx d buf b =
      (None, record_event (EvCancel ?k) (record_event (EvClose ?k)
               (?b2\<lparr>objects := (objects ?b2)(?k \<mapsto> r_data (ToReader buf))\<rparr>)))"
    by (simp add: Put_def Let_def nw' cp' close cancel_def)
  then show ?thesis by (simp add: record_event_def)
qed

text \<open>
  Claim C2, as amended. When opening the writer fails, \<open>Put\<close> cancels the context
  and returns the error. When \<open>Put\<close> fails while copying the bytes of the buffer into
  the writer, it cancels the context of the writer before it closes the writer and
  returns the error of the copy, and nothing of the bucket but its event log has
  changed. When the copy succeeds, the writer is closed before the context is cancelled;
  if the caller's context was not cancelled and the close of the writer commits, \<open>Put\<close>
  returns no error and the bucket holds the complete bytes of the buffer under the key of
  the digest, and nothing else of it has changed but the event log. In every case the
  objects of the bucket are either unchanged or changed under the key of the digest to
  the complete bytes of a buffer that was read to its end without an error.
\<close>

theorem Put_stores_fully_or_nothing:
  "(\<forall>err. fst (bucket_NewWriter b (getKey ba d)) = Inl err \<longrightarrow>
       Put ToReader ba ctx d buf b =
         (Some err, b\<lparr>events := events b @
                        [EvNewWriter (getKey ba d), EvCancel (getKey ba d)]\<rparr>)) \<and>
   (\<forall>w err. fst (bucket_NewWriter b (getKey ba d)) = Inr w \<and>
       snd (fst (io_Copy w (ToReader buf) (snd (bucket_NewWriter b (getKey ba d))))) = Some err \<longrightarrow>
       Put ToReader ba ctx d buf b =
         (Some err, b\<lparr>events := events b @
                        [EvNewWriter (getKey ba d), EvWrite (getKey ba d),
                         EvCancel (getKey ba d), EvClose (getKey ba d)]\<rparr>)) \<and>
   (\<forall>w. fst (bucket_NewWriter b (getKey ba d)) = Inr w \<and>
       snd (fst (io_Copy w (ToReader buf) (snd (bucket_NewWriter b (getKey ba d))))) = None \<longrightarrow>
       events (snd (Put ToReader ba ctx d buf b)) =
         events b @ [EvNewWriter (getKey ba d), EvWrite (getKey ba d),
                     EvClose (getKey ba d), EvCancel (getKey ba d)] \<and>
       faults (snd (Put ToReader ba ctx d buf b)) = faults b \<and>
       write_fault (snd (Put ToReader ba ctx d buf b)) = write_fault b \<and>
       (\<not> cancelled ctx \<and> faults b OpClose (getKey ba d) = None \<longrightarrow>
          Put ToReader ba ctx d buf b =
            (None, b\<lparr>objects := (objects b)(getKey ba d \<mapsto> r_data (ToReader buf)),
                     events := events b @
                       [EvNewWriter (getKey ba d), EvWrite (getKey ba d),
                        EvClose (getKey ba d), EvCancel (getKey ba d)]\<rparr>)) \<and>
       (cancelled ctx \<or> faults b OpClose (getKey ba d) \<noteq> None \<longrightarrow>
          objects (snd (Put ToReader ba ctx d buf b)) = objects b)) \<and>
   (objects (snd (Put ToReader ba ctx d buf b)) = objects b \<or>
    objects (snd (Put ToReader ba ctx d buf b)) =
      (objects b)(getKey ba d \<mapsto> r_data (ToReader buf)) \<and> r_err (ToReader buf) = None)"
proof (intro conjI allI impI)
  fix err
  assume h: "fst (bucket_NewWriter b (getKey ba d)) = Inl err"
  show "Put ToReader ba ctx d buf b =
         (Some err, b\<lparr>events := events b @
                        [EvNewWriter (getKey ba d), EvCancel (getKey ba d)]\<rparr>)"
    by (rule Put_NewWriter_fails [where ToReader = ToReader and buf = buf, OF h])
next
  fix w err
  assume h: "fst (bucket_NewWriter b (getKey ba d)) = Inr w \<and>
       snd (fst (io_Copy w (ToReader buf) (snd (bucket_NewWriter b (getKey ba d))))) = Some err"
  show "Put ToReader ba ctx d buf b =
         (Some err, b\<lparr>events := events b @
                        [EvNewWriter (getKey ba d), EvWrite (getKey ba d),
                         EvCancel (getKey ba d), EvClose (getKey ba d)]\<rparr>)"
    by (rule Put_copy_fails [where ToReader = ToReader and buf = buf and ctx = ctx,
          OF conjunct1 [OF h] conjunct2 [OF h]])
next
  fix w
  assume h: "fst (bucket_NewWriter b (getKey ba d)) = Inr w \<and>
       snd (fst (io_Copy w (ToReader buf) (snd (bucket_NewWriter b (getKey ba d))))) = None"
  note p = Put_copy_succeeds [where ToReader = ToReader and buf = buf and ctx = ctx,
      OF conjunct1 [OF h] conjunct2 [OF h]]
  show "events (snd (Put ToReader ba ctx d buf b)) =
         events b @ [EvNewWriter (getKey ba d), EvWrite (getKey ba d),
                     EvClose (getKey ba d), EvCancel (getKey ba d)]" using p by simp
  show "faults (snd (Put ToReader ba ctx d buf b)) = faults b"
    by (rule Put_keeps_faults [THEN conjunct1])
  show "write_fault (snd (Put ToReader ba ctx d buf b)) = write_fault b"
    by (rule Put_keeps_faults [THEN conjunct2])
  { assume c: "\<not> cancelled ctx \<and> faults b OpClose (getKey ba d) = None"
    show "Put ToReader ba ctx d buf b =
            (None, b\<lparr>objects := (objects b)(getKey ba d \<mapsto> r_data (ToReader buf)),
                     events := events b @
                       [EvNewWriter (getKey ba d), EvWrite (getKey ba d),
                        EvClose (getKey ba d), EvCancel (getKey ba d)]\<rparr>)"
      by (rule Put_commits [where ToReader = ToReader and buf = buf,
            OF conjunct1 [OF h] conjunct2 [OF h] conjunct1 [OF c] conjunct2 [OF c]]) }
  { assume "cancelled ctx \<or> faults b OpClose (getKey ba d) \<noteq> None"
    then show "objects (snd (Put ToReader ba ctx d buf b)) = objects b"
      using p by auto }
next
  show "objects (snd (Put ToReader ba ctx d buf b)) = objects b \<or>
    objects (snd (Put ToReader ba ctx d buf b)) =
      (objects b)(getKey ba d \<mapsto> r_data (ToReader buf)) \<and> r_err (ToReader buf) = None"
  proof (cases "fst (bucket_NewWriter b (getKey ba d))")
    case (Inl err)
    show ?thesis by (simp add: Put_NewWriter_fails [where ToReader = ToReader and buf = buf, OF Inl])
  next
    case (Inr w)
    show ?thesis
    proof (cases "snd (fst (io_Copy w (ToReader buf) (snd (bucket_NewWriter b (getKey ba d)))))")
      case None
      show ?thesis
        using Put_copy_succeeds [where ToReader = ToReader and buf = buf and ctx = ctx, OF Inr None]
        by (simp split: if_splits)
    next
      case (Some err)
      show ?thesis by (simp add: Put_copy_fails [where ToReader = ToReader and buf = buf, OF Inr Some])
    qed
  qed
qed

lemma ex_NewReader_foo:
  "fst (bucket_NewReader ex_bucket (getKey ex_ba ex_foo)) =
     Inl (not_found_error ''cas/acbd18db4cc2f85cedef654fccc4a4d8-3'')"
  by (simp add: bucket_NewReader_def ex_bucket_def ex_foo_key)

lemma ex_NewReader_down:
  "fst (bucket_NewReader ex_bucket_down (getKey ex_ba ex_hello)) = Inl ex_down"
  by (simp add: bucket_NewReader_def ex_bucket_down_def)

lemma ex_NewReader_hello:
  "fst (bucket_NewReader ex_bucket (getKey ex_ba ex_hello)) =
     Inr \<lparr>r_data = ''Hello'', r_err = None\<rparr>"
  by (simp add: bucket_NewReader_def ex_bucket_def ex_hello_key)

theorem Get_embeds_error_witness:
  "fst (bucket_NewReader ex_bucket (getKey ex_ba ex_foo)) =
     Inl (not_found_error ''cas/acbd18db4cc2f85cedef654fccc4a4d8-3'') \<and>
   fst (Get (\<lambda>s. s) ex_ba ex_foo ex_bucket) =
     NewBufferFromError (StatusError Code_NotFound
       ''blob (key cas/acbd18db4cc2f85cedef654fccc4a4d8-3) (code=NotFound)'') \<and>
   fst (bucket_NewReader ex_bucket_down (getKey ex_ba ex_hello)) = Inl ex_down \<and>
   fst (Get (\<lambda>s. s) ex_ba ex_hello ex_bucket_down) = NewBufferFromError ex_down \<and>
   fst (bucket_NewReader ex_bucket (getKey ex_ba ex_hello)) =
     Inr \<lparr>r_data = ''Hello'', r_err = None\<rparr> \<and>
   buffer_error (fst (Get (\<lambda>s. s) ex_ba ex_hello ex_bucket)) = None"
proof -
  have c: "gcerrors_Code (not_found_error ''cas/acbd18db4cc2f85cedef654fccc4a4d8-3'') = GC_NotFound"
    by (simp add: not_found_error_def)
  have c': "gcerrors_Code ex_down \<noteq> GC_NotFound" by (simp add: ex_down_def)
  have a: "fst (Get (\<lambda>s. s) ex_ba ex_foo ex_bucket) =
     NewBufferFromError (StatusError Code_NotFound
       ''blob (key cas/acbd18db4cc2f85cedef654fccc4a4d8-3) (code=NotFound)'')"
    using Get_embeds_error [where b = ex_bucket and ba = ex_ba and d = ex_foo
        and err = "not_found_error ''cas/acbd18db4cc2f85cedef654fccc4a4d8-3''"
        and sprintf = "\<lambda>s. s"] ex_NewReader_foo c
    by (auto simp: not_found_error_def)
  have b: "fst (Get (\<lambda>s. s) ex_ba ex_hello ex_bucket_down) = NewBufferFromError ex_down"
    using Get_embeds_error [where b = ex_bucket_down and ba = ex_ba and d = ex_hello
        and err = ex_down and sprintf = "\<lambda>s. s"] ex_NewReader_down c'
    by simp
  have d: "buffer_error (fst (Get (\<lambda>s. s) ex_ba ex_hello ex_bucket)) = None"
    using Get_embeds_error [where b = ex_bucket and ba = ex_ba and d = ex_hello
        and r = "\<lparr>r_data = ''Hello'', r_err = None\<rparr>" and sprintf = "\<lambda>s. s"]
      ex_NewReader_hello
    by simp
  show ?thesis using ex_NewReader_foo ex_NewReader_down ex_NewReader_hello a b d by simp
qed

theorem Get_repair_deletes_key_witness:
  "fst (bucket_NewReader ex_bucket (getKey ex_ba ex_hello)) =
     Inr \<lparr>r_data = ''Hello'', r_err = None\<rparr> \<and>
   (\<exists>f. buffer_Repair (fst (Get (\<lambda>s. s) ex_ba ex_hello ex_bucket)) = Some f \<and>
        fst (f ex_bucket) = None \<and>
        objects (snd (f ex_bucket)) = Map.empty \<and>
        events (snd (f ex_bucket)) = [EvDelete ''cas/8b1a9953c4611296a827abf8c47804d7-5''])"
proof -
  obtain f where f: "buffer_Repair (fst (Get (\<lambda>s. s) ex_ba ex_hello ex_bucket)) = Some f"
    and o: "\<forall>b'. faults b' OpDelete (getKey ex_ba ex_hello) = None \<longrightarrow>
              fst (f b') = (if objects b' (getKey ex_ba ex_hello) = None
                            then Some (not_found_error (getKey ex_ba ex_hello)) else None) \<and>
              objects (snd (f b')) = (objects b')(getKey ex_ba ex_hello := None)"
    and e: "\<forall>b'. events (snd (f b')) = events b' @ [EvDelete (getKey ex_ba ex_hello)]"
    using Get_repair_deletes_key [OF ex_NewReader_hello, of "\<lambda>s. s"] by blast
  have nf: "faults ex_bucket OpDelete (getKey ex_ba ex_hello) = None"
    by (simp add: ex_bucket_def)
  have "fst (f ex_bucket) = None" and "objects (snd (f ex_bucket)) = Map.empty"
    using o nf by (simp_all add: ex_hello_key ex_bucket_def)
  moreover have "events (snd (f ex_bucket)) = [EvDelete ''cas/8b1a9953c4611296a827abf8c47804d7-5'']"
    using e by (simp add: ex_hello_key ex_bucket_def)
  ultimately show ?thesis using f ex_NewReader_hello by blast
qed

lemma ex_NewWriter_foo:
  "bucket_NewWriter ex_bucket (getKey ex_ba ex_foo) =
     (Inr \<lparr>w_key = ''cas/acbd18db4cc2f85cedef654fccc4a4d8-3'', w_data = []\<rparr>,
      record_event (EvNewWriter ''cas/acbd18db4cc2f85cedef654fccc4a4d8-3'') ex_bucket)"
  by (simp add: bucket_NewWriter_def ex_bucket_def ex_foo_key)

lemma ex_copy_foo:
  "faults b OpNewWriter ''cas/acbd18db4cc2f85cedef654fccc4a4d8-3'' = None \<Longrightarrow>
   write_fault b ''cas/acbd18db4cc2f85cedef654fccc4a4d8-3'' = None \<Longrightarrow>
   fst (bucket_NewWriter b (getKey ex_ba ex_foo)) =
     Inr \<lparr>w_key = ''cas/acbd18db4cc2f85cedef654fccc4a4d8-3'', w_data = []\<rparr> \<and>
   snd (fst (io_Copy \<lparr>w_key = ''cas/acbd18db4cc2f85cedef654fccc4a4d8-3'', w_data = []\<rparr>
          (ex_ToReader (NewCASBufferFromByteSlice ex_foo ''foo'' UserProvided))
          (snd (bucket_NewWriter b (getKey ex_ba ex_foo))))) = None \<and>
   snd (fst (io_Copy \<lparr>w_key = ''cas/acbd18db4cc2f85cedef654fccc4a4d8-3'', w_data = []\<rparr>
          (ex_ToReader (NewCASBufferFromByteSlice ex_foo ''fo'' UserProvided))
          (snd (bucket_NewWriter b (getKey ex_ba ex_foo))))) = Some ex_wrong_size"
  unfolding ex_foo_key
  by (simp add: bucket_NewWriter_def io_Copy_def writer_Write_def ex_foo_def ex_wrong_size_def)

theorem Put_stores_fully_or_nothing_witness:
  "fst (bucket_NewWriter ex_bucket (getKey ex_ba ex_foo)) =
     Inr \<lparr>w_key = ''cas/acbd18db4cc2f85cedef654fccc4a4d8-3'', w_data = []\<rparr> \<and>
   snd (fst (io_Copy \<lparr>w_key = ''cas/acbd18db4cc2f85cedef654fccc4a4d8-3'', w_data = []\<rparr>
          (ex_ToReader (NewCASBufferFromByteSlice ex_foo ''fo'' UserProvided))
          (snd (bucket_NewWriter ex_bucket (getKey ex_ba ex_foo))))) = Some ex_wrong_size \<and>
   fst (Put ex_ToReader ex_ba (Context False) ex_foo
          (NewCASBufferFromByteSlice ex_foo ''fo'' UserProvided) ex_bucket) = Some ex_wrong_size \<and>
   objects (snd (Put ex_ToReader ex_ba (Context False) ex_foo
          (NewCASBufferFromByteSlice ex_foo ''fo'' UserProvided) ex_bucket)) = objects ex_bucket \<and>
   events (snd (Put ex_ToReader ex_ba (Context False) ex_foo
          (NewCASBufferFromByteSlice ex_foo ''fo'' UserProvided) ex_bucket)) =
     [EvNewWriter ''cas/acbd18db4cc2f85cedef654fccc4a4d8-3'',
      EvWrite ''cas/acbd18db4cc2f85cedef654fccc4a4d8-3'',
      EvCancel ''cas/acbd18db4cc2f85cedef654fccc4a4d8-3'',
      EvClose ''cas/acbd18db4cc2f85cedef654fccc4a4d8-3''] \<and>
   snd (fst (io_Copy \<lparr>w_key = ''cas/acbd18db4cc2f85cedef654fccc4a4d8-3'', w_data = []\<rparr>
          (ex_ToReader (NewCASBufferFromByteSlice ex_foo ''foo'' UserProvided))
          (snd (bucket_NewWriter ex_bucket (getKey ex_ba ex_foo))))) = None \<and>
   fst (Put ex_ToReader ex_ba (Context False) ex_foo
          (NewCASBufferFromByteSlice ex_foo ''foo'' UserProvided) ex_bucket) = None \<and>
   objects (snd (Put ex_ToReader ex_ba (Context False) ex_foo
          (NewCASBufferFromByteSlice ex_foo ''foo'' UserProvided) ex_bucket)) =
     (objects ex_bucket)(''cas/acbd18db4cc2f85cedef654fccc4a4d8-3'' \<mapsto> ''foo'') \<and>
   events (snd (Put ex_ToReader ex_ba (Context False) ex_foo
          (NewCASBufferFromByteSlice ex_foo ''foo'' UserProvided) ex_bucket)) =
     [EvNewWriter ''cas/acbd18db4cc2f85cedef654fccc4a4d8-3'',
      EvWrite ''cas/acbd18db4cc2f85cedef654fccc4a4d8-3'',
      EvClose ''cas/acbd18db4cc2f85cedef654fccc4a4d8-3'',
      EvCancel ''cas/acbd18db4cc2f85cedef654fccc4a4d8-3'']"
proof -
  let ?k = "''cas/acbd18db4cc2f85cedef654fccc4a4d8-3''"
  let ?w = "\<lparr>w_key = ?k, w_data = []\<rparr>"
  let ?bad = "NewCASBufferFromByteSlice ex_foo ''fo'' UserProvided"
  let ?good = "NewCASBufferFromByteSlice ex_foo ''foo'' UserProvided"
  have f: "faults ex_bucket OpNewWriter ?k = None" "write_fault ex_bucket ?k = None"
    by (simp_all add: ex_bucket_def)
  note c = ex_copy_foo [OF f]
  have nw: "fst (bucket_NewWriter ex_bucket (getKey ex_ba ex_foo)) = Inr ?w" using c by simp
  have bad: "snd (fst (io_Copy ?w (ex_ToReader ?bad)
          (snd (bucket_NewWriter ex_bucket (getKey ex_ba ex_foo))))) = Some ex_wrong_size"
    using c by simp
  have good: "snd (fst (io_Copy ?w (ex_ToReader ?good)
          (snd (bucket_NewWriter ex_bucket (getKey ex_ba ex_foo))))) = None"
    using c by simp
  have nc: "\<not> cancelled (Context False) \<and> faults ex_bucket OpClose (getKey ex_ba ex_foo) = None"
    by (simp add: ex_bucket_def)
  have a: "Put ex_ToReader ex_ba (Context False) ex_foo ?bad ex_bucket =
      (Some ex_wrong_size, ex_bucket\<lparr>events := events ex_bucket @
         [EvNewWriter (getKey ex_ba ex_foo), EvWrite (getKey ex_ba ex_foo),
          EvCancel (getKey ex_ba ex_foo), EvClose (getKey ex_ba ex_foo)]\<rparr>)"
    using Put_stores_fully_or_nothing [where b = ex_bucket and ba = ex_ba and d = ex_foo
        and ToReader = ex_ToReader and buf = ?bad and ctx = "Context False"] nw bad
    by blast
  have b: "Put ex_ToReader ex_ba (Context False) ex_foo ?good ex_bucket =
      (None, ex_bucket\<lparr>objects := (objects ex_bucket)
                 (getKey ex_ba ex_foo \<mapsto> r_data (ex_ToReader ?good)),
               events := events ex_bucket @
                 [EvNewWriter (getKey ex_ba ex_foo), EvWrite (getKey ex_ba ex_foo),
                  EvClose (getKey ex_ba ex_foo), EvCancel (getKey ex_ba ex_foo)]\<rparr>)"
    using Put_stores_fully_or_nothing [where b = ex_bucket and ba = ex_ba and d = ex_foo
        and ToReader = ex_ToReader and buf = ?good and ctx = "Context False"] nw good nc
    by blast
  have ev: "events ex_bucket = []" by (simp add: ex_bucket_def)
  show ?thesis using nw bad good by (simp add: a b ex_foo_key ev)
qed

text \<open>
  The claim as stated fails on the success path. With a bucket whose writers fail to
  commit on close, and likewise with a caller's context that is already cancelled, the
  writer opens and the copy ends without an error, \<open>Put\<close> returns no error, and the
  bucket holds nothing under the key of the digest.
\<close>

theorem Put_success_path_without_commit:
  "fst (bucket_NewWriter ex_bucket_close_fails (getKey ex_ba ex_foo)) =
     Inr \<lparr>w_key = ''cas/acbd18db4cc2f85cedef654fccc4a4d8-3'', w_data = []\<rparr> \<and>
   snd (fst (io_Copy \<lparr>w_key = ''cas/acbd18db4cc2f85cedef654fccc4a4d8-3'', w_data = []\<rparr>
          (ex_ToReader (NewCASBufferFromByteSlice ex_foo ''foo'' UserProvided))
          (snd (bucket_NewWriter ex_bucket_close_fails (getKey ex_ba ex_foo))))) = None \<and>
   fst (Put ex_ToReader ex_ba (Context False) ex_foo
          (NewCASBufferFromByteSlice ex_foo ''foo'' UserProvided) ex_bucket_close_fails) = None \<and>
   objects (snd (Put ex_ToReader ex_ba (Context False) ex_foo
          (NewCASBufferFromByteSlice ex_foo ''foo'' UserProvided) ex_bucket_close_fails))
     ''cas/acbd18db4cc2f85cedef654fccc4a4d8-3'' = None \<and>
   fst (Put ex_ToReader ex_ba (Context True) ex_foo
          (NewCASBufferFromByteSlice ex_foo ''foo'' UserProvided) ex_bucket) = None \<and>
   objects (snd (Put ex_ToReader ex_ba (Context True) ex_foo
          (NewCASBufferFromByteSlice ex_foo ''foo'' UserProvided) ex_bucket))
     ''cas/acbd18db4cc2f85cedef654fccc4a4d8-3'' = None"
proof -
  let ?k = "''cas/acbd18db4cc2f85cedef654fccc4a4d8-3''"
  let ?good = "NewCASBufferFromByteSlice ex_foo ''foo'' UserProvided"
  have f: "faults ex_bucket_close_fails OpNewWriter ?k = None"
      "write_fault ex_bucket_close_fails ?k = None"
    by (simp_all add: ex_bucket_close_fails_def)
  note c = ex_copy_foo [OF f]
  have g: "faults ex_bucket OpNewWriter ?k = None" "write_fault ex_bucket ?k = None"
    by (simp_all add: ex_bucket_def)
  note c' = ex_copy_foo [OF g]
  have p: "fst (Put ex_ToReader ex_ba (Context False) ex_foo ?good ex_bucket_close_fails) = None \<and>
      objects (snd (Put ex_ToReader ex_ba (Context False) ex_foo ?good ex_bucket_close_fails)) =
        objects ex_bucket_close_fails"
    using Put_copy_succeeds [where ToReader = ex_ToReader and buf = ?good and ba = ex_ba
        and d = ex_foo and b = ex_bucket_close_fails and ctx = "Context False",
        OF conjunct1 [OF c] conjunct1 [OF conjunct2 [OF c]]]
    by (simp add: ex_bucket_close_fails_def)
  have q: "fst (Put ex_ToReader ex_ba (Context True) ex_foo ?good ex_bucket) = None \<and>
      objects (snd (Put ex_ToReader ex_ba (Context True) ex_foo ?good ex_bucket)) =
        objects ex_bucket"
    using Put_copy_succeeds [where ToReader = ex_ToReader and buf = ?good and ba = ex_ba
        and d = ex_foo and b = ex_bucket and ctx = "Context True",
        OF conjunct1 [OF c'] conjunct1 [OF conjunct2 [OF c']]]
    by simp
  have o: "objects ex_bucket_close_fails ?k = None" "objects ex_bucket ?k = None"
    by (simp_all add: ex_bucket_close_fails_def ex_bucket_def)
  show ?thesis using c p q o by simp
qed

lemma FindMissing_loop_events:
  "events (snd (FindMissing_loop ba ds sb b)) =
     events b @ map (\<lambda>d. EvExists (getKey ba d))
       (take (Suc (length (takeWhile (\<lambda>d. faults b OpExists (getKey ba d) = None) ds))) ds)"
proof (induction ds arbitrary: sb b)
  case Nil
  then show ?case by simp
next
  case (Cons d ds)
  let ?b' = "record_event (EvExists (getKey ba d)) b"
  show ?case
  proof (cases "faults b OpExists (getKey ba d)")
    case (Some e)
    have ex: "bucket_Exists b (getKey ba d) = (Inl e, ?b')"
      by (simp add: bucket_Exists_def Some)
    show ?thesis by (simp add: ex Some)
  next
    case None
    have ex: "bucket_Exists b (getKey ba d) = (Inr (objects b (getKey ba d) \<noteq> None), ?b')"
      by (simp add: bucket_Exists_def None)
    obtain sb' where step: "FindMissing_loop ba (d # ds) sb b = FindMissing_loop ba ds sb' ?b'"
      by (cases "objects b (getKey ba d) \<noteq> None") (simp_all add: ex)
    have ih: "events (snd (FindMissing_loop ba ds sb' ?b')) =
        events ?b' @ map (\<lambda>d. EvExists (getKey ba d))
          (take (Suc (length (takeWhile (\<lambda>d. faults b OpExists (getKey ba d) = None) ds))) ds)"
      using Cons.IH [of sb' ?b'] by simp
    show ?thesis unfolding step ih by (simp add: None)
  qed
qed

lemma FindMissing_events_no_fault:
  assumes "\<forall>d \<in> set ds. faults b OpExists (getKey ba d) = None"
  shows "take (Suc (length (takeWhile (\<lambda>d. faults b OpExists (getKey ba d) = None) ds))) ds = ds"
proof -
  have tw: "takeWhile (\<lambda>d. faults b OpExists (getKey ba d) = None) ds = ds"
    using assms by (induction ds) simp_all
  show ?thesis unfolding tw by simp
qed

lemma Put_events:
  "\<exists>evs. events (snd (Put ToReader ba ctx d buf b)) = events b @ EvNewWriter (getKey ba d) # evs \<and>
         (\<forall>e \<in> set evs. event_key e = getKey ba d)"
proof (cases "fst (bucket_NewWriter b (getKey ba d))")
  case (Inl err)
  show ?thesis
    by (rule exI [of _ "[EvCancel (getKey ba d)]"])
       (simp add: Put_NewWriter_fails [where ToReader = ToReader and buf = buf, OF Inl])
next
  case (Inr w)
  show ?thesis
  proof (cases "snd (fst (io_Copy w (ToReader buf) (snd (bucket_NewWriter b (getKey ba d)))))")
    case None
    show ?thesis
      by (rule exI [of _ "[EvWrite (getKey ba d), EvClose (getKey ba d), EvCancel (getKey ba d)]"])
         (simp add: Put_copy_succeeds [where ToReader = ToReader and buf = buf, OF Inr None])
  next
    case (Some err)
    show ?thesis
      by (rule exI [of _ "[EvWrite (getKey ba d), EvCancel (getKey ba d), EvClose (getKey ba d)]"])
         (simp add: Put_copy_fails [where ToReader = ToReader and buf = buf, OF Inr Some])
  qed
qed

lemma Put_other_keys:
  "k \<noteq> getKey ba d \<Longrightarrow> objects (snd (Put ToReader ba ctx d buf b)) k = objects b k"
proof (cases "fst (bucket_NewWriter b (getKey ba d))")
  case (Inl err)
  show ?thesis
    by (simp add: Put_NewWriter_fails [where ToReader = ToReader and buf = buf, OF Inl])
next
  case (Inr w)
  assume k: "k \<noteq> getKey ba d"
  show ?thesis
  proof (cases "snd (fst (io_Copy w (ToReader buf) (snd (bucket_NewWriter b (getKey ba d)))))")
    case None
    show ?thesis
      using k Put_copy_succeeds [where ToReader = ToReader and buf = buf and ctx = ctx, OF Inr None]
      by simp
  next
    case (Some err)
    show ?thesis
      by (simp add: Put_copy_fails [where ToReader = ToReader and buf = buf, OF Inr Some])
  qed
qed

lemma Get_state:
  "snd (Get sprintf ba d b) = b\<lparr>events := events b @ [EvNewReader (getKey ba d)]\<rparr>"
proof -
  obtain res b' where nr: "bucket_NewReader b (getKey ba d) = (res, b')"
    by (cases "bucket_NewReader b (getKey ba d)")
  have b': "b' = record_event (EvNewReader (getKey ba d)) b"
    using bucket_NewReader_state [of b "getKey ba d"] nr by simp
  show ?thesis
    by (cases res) (simp_all add: Get_def Let_def nr b' record_event_def)
qed

text \<open>
  Claim C8. The key of a digest in the cloud backend is the key prefix followed by the
  digest key of the storage type. \<open>Get\<close> opens a reader for that key and for nothing
  else, and the buffer it returns is built from what the bucket answers for that key.
  \<open>Put\<close> opens its writer for that key, addresses no other key, leaves the objects
  under every other key as they are, and a committed blob is stored under that key.
  \<open>FindMissing\<close> checks that key for the digests of the set, in their order, up to and
  including the first check that fails: for each of them when no check fails. The repair
  hook of a buffer that \<open>Get\<close> built from a reader deletes that key and touches no
  other.
\<close>

theorem cloud_operations_use_prefixed_key:
  "getKey ba d = keyPrefix ba @ GetDigestKey (storageType ba) d \<and>
   snd (Get sprintf ba d b) =
     b\<lparr>events := events b @ [EvNewReader (keyPrefix ba @ GetDigestKey (storageType ba) d)]\<rparr> \<and>
   fst (Get sprintf ba d b) =
     (case fst (bucket_NewReader b (keyPrefix ba @ GetDigestKey (storageType ba) d)) of
        Inl err \<Rightarrow>
          NewBufferFromError
            (if gcerrors_Code err = GC_NotFound
             then StatusError Code_NotFound (sprintf (error_Error err)) else err)
      | Inr r \<Rightarrow>
          NewBufferFromReader (storageType ba) d r
            (Reparable d
               (\<lambda>bkt. bucket_Delete bkt (keyPrefix ba @ GetDigestKey (storageType ba) d)))) \<and>
   (\<exists>evs. events (snd (Put ToReader ba ctx d buf b)) =
            events b @ EvNewWriter (keyPrefix ba @ GetDigestKey (storageType ba) d) # evs \<and>
          (\<forall>e \<in> set evs. event_key e = keyPrefix ba @ GetDigestKey (storageType ba) d)) \<and>
   (\<forall>k. k \<noteq> keyPrefix ba @ GetDigestKey (storageType ba) d \<longrightarrow>
        objects (snd (Put ToReader ba ctx d buf b)) k = objects b k) \<and>
   (\<forall>w. fst (bucket_NewWriter b (keyPrefix ba @ GetDigestKey (storageType ba) d)) = Inr w \<and>
        snd (fst (io_Copy w (ToReader buf)
               (snd (bucket_NewWriter b (keyPrefix ba @ GetDigestKey (storageType ba) d))))) = None \<and>
        \<not> cancelled ctx \<and>
        faults b OpClose (keyPrefix ba @ GetDigestKey (storageType ba) d) = None \<longrightarrow>
        objects (snd (Put ToReader ba ctx d buf b))
          (keyPrefix ba @ GetDigestKey (storageType ba) d) = Some (r_data (ToReader buf))) \<and>
   events (snd (FindMissing ba S b)) =
     events b @ map (\<lambda>d'. EvExists (keyPrefix ba @ GetDigestKey (storageType ba) d'))
       (take (Suc (length (takeWhile
          (\<lambda>d'. faults b OpExists (keyPrefix ba @ GetDigestKey (storageType ba) d') = None)
          (Items S)))) (Items S)) \<and>
   ((\<forall>d' \<in> set (Items S).
        faults b OpExists (keyPrefix ba @ GetDigestKey (storageType ba) d') = None) \<longrightarrow>
      events (snd (FindMissing ba S b)) =
        events b @ map (\<lambda>d'. EvExists (keyPrefix ba @ GetDigestKey (storageType ba) d'))
                     (Items S)) \<and>
   (\<forall>r. fst (bucket_NewReader b (keyPrefix ba @ GetDigestKey (storageType ba) d)) = Inr r \<longrightarrow>
      (\<exists>f. buffer_Repair (fst (Get sprintf ba d b)) = Some f \<and>
           (\<forall>b'. events (snd (f b')) =
                   events b' @ [EvDelete (keyPrefix ba @ GetDigestKey (storageType ba) d)] \<and>
                 (faults b' OpDelete (keyPrefix ba @ GetDigestKey (storageType ba) d) = None \<longrightarrow>
                    objects (snd (f b')) =
                      (objects b')(keyPrefix ba @ GetDigestKey (storageType ba) d := None)) \<and>
                 (\<forall>k. k \<noteq> keyPrefix ba @ GetDigestKey (storageType ba) d \<longrightarrow>
                      objects (snd (f b')) k = objects b' k))))"
proof -
  have K: "keyPrefix ba @ GetDigestKey (storageType ba) d = getKey ba d"
    by (simp add: getKey_def)
  have K': "\<And>d'. keyPrefix ba @ GetDigestKey (storageType ba) d' = getKey ba d'"
    by (simp add: getKey_def)
  have c1: "getKey ba d = getKey ba d" ..
  have c2: "snd (Get sprintf ba d b) = b\<lparr>events := events b @ [EvNewReader (getKey ba d)]\<rparr>"
    by (rule Get_state)
  have c3: "fst (Get sprintf ba d b) =
     (case fst (bucket_NewReader b (getKey ba d)) of
        Inl err \<Rightarrow>
          NewBufferFromError
            (if gcerrors_Code err = GC_NotFound
             then StatusError Code_NotFound (sprintf (error_Error err)) else err)
      | Inr r \<Rightarrow>
          NewBufferFromReader (storageType ba) d r
            (Reparable d (\<lambda>bkt. bucket_Delete bkt (getKey ba d))))"
  proof (cases "fst (bucket_NewReader b (getKey ba d))")
    case (Inl err)
    show ?thesis by (simp add: Inl Get_failure [OF Inl])
  next
    case (Inr r)
    show ?thesis by (simp add: Inr Get_success [OF Inr])
  qed
  have c4: "\<exists>evs. events (snd (Put ToReader ba ctx d buf b)) =
            events b @ EvNewWriter (getKey ba d) # evs \<and>
          (\<forall>e \<in> set evs. event_key e = getKey ba d)"
    by (rule Put_events)
  have c5: "\<forall>k. k \<noteq> getKey ba d \<longrightarrow>
        objects (snd (Put ToReader ba ctx d buf b)) k = objects b k"
    by (simp add: Put_other_keys)
  have c6: "\<forall>w. fst (bucket_NewWriter b (getKey ba d)) = Inr w \<and>
        snd (fst (io_Copy w (ToReader buf) (snd (bucket_NewWriter b (getKey ba d))))) = None \<and>
        \<not> cancelled ctx \<and> faults b OpClose (getKey ba d) = None \<longrightarrow>
        objects (snd (Put ToReader ba ctx d buf b)) (getKey ba d) = Some (r_data (ToReader buf))"
  proof (intro allI impI)
    fix w
    assume h: "fst (bucket_NewWriter b (getKey ba d)) = Inr w \<and>
        snd (fst (io_Copy w (ToReader buf) (snd (bucket_NewWriter b (getKey ba d))))) = None \<and>
        \<not> cancelled ctx \<and> faults b OpClose (getKey ba d) = None"
    have "objects (snd (Put ToReader ba ctx d buf b)) =
        (objects b)(getKey ba d \<mapsto> r_data (ToReader buf))"
      using Put_copy_succeeds [where ToReader = ToReader and buf = buf and ctx = ctx and b = b
          and ba = ba and d = d and w = w] h
      by simp
    then show "objects (snd (Put ToReader ba ctx d buf b)) (getKey ba d) =
        Some (r_data (ToReader buf))" by simp
  qed
  have c7: "events (snd (FindMissing ba S b)) =
     events b @ map (\<lambda>d'. EvExists (getKey ba d'))
       (take (Suc (length (takeWhile (\<lambda>d'. faults b OpExists (getKey ba d') = None)
          (Items S)))) (Items S))"
    unfolding FindMissing_def by (rule FindMissing_loop_events)
  have c8: "(\<forall>d' \<in> set (Items S). faults b OpExists (getKey ba d') = None) \<longrightarrow>
      events (snd (FindMissing ba S b)) =
        events b @ map (\<lambda>d'. EvExists (getKey ba d')) (Items S)"
    using c7 by (auto simp: FindMissing_events_no_fault)
  have c9: "\<forall>r. fst (bucket_NewReader b (getKey ba d)) = Inr r \<longrightarrow>
      (\<exists>f. buffer_Repair (fst (Get sprintf ba d b)) = Some f \<and>
           (\<forall>b'. events (snd (f b')) = events b' @ [EvDelete (getKey ba d)] \<and>
                 (faults b' OpDelete (getKey ba d) = None \<longrightarrow>
                    objects (snd (f b')) = (objects b')(getKey ba d := None)) \<and>
                 (\<forall>k. k \<noteq> getKey ba d \<longrightarrow> objects (snd (f b')) k = objects b' k)))"
  proof (intro allI impI)
    fix r
    assume s: "fst (bucket_NewReader b (getKey ba d)) = Inr r"
    show "\<exists>f. buffer_Repair (fst (Get sprintf ba d b)) = Some f \<and>
           (\<forall>b'. events (snd (f b')) = events b' @ [EvDelete (getKey ba d)] \<and>
                 (faults b' OpDelete (getKey ba d) = None \<longrightarrow>
                    objects (snd (f b')) = (objects b')(getKey ba d := None)) \<and>
                 (\<forall>k. k \<noteq> getKey ba d \<longrightarrow> objects (snd (f b')) k = objects b' k))"
      by (rule exI [of _ "\<lambda>bkt. bucket_Delete bkt (getKey ba d)"])
         (simp add: Get_success [OF s] buffer_Repair_NewBufferFromReader bucket_Delete_events
            bucket_Delete_objects bucket_Delete_other)
  qed
  show ?thesis
    unfolding K K' using c2 c3 c4 c5 c6 c7 c8 c9 by (intro conjI) simp_all
qed

theorem cloud_operations_use_prefixed_key_witness:
  "getKey ex_ba ex_hello = ''cas/8b1a9953c4611296a827abf8c47804d7-5'' \<and>
   events (snd (Get (\<lambda>s. s) ex_ba ex_hello ex_bucket)) =
     [EvNewReader ''cas/8b1a9953c4611296a827abf8c47804d7-5''] \<and>
   (\<exists>f. buffer_Repair (fst (Get (\<lambda>s. s) ex_ba ex_hello ex_bucket)) = Some f \<and>
        events (snd (f ex_bucket)) = [EvDelete ''cas/8b1a9953c4611296a827abf8c47804d7-5''] \<and>
        objects (snd (f ex_bucket)) = Map.empty) \<and>
   events (snd (FindMissing ex_ba (DigestSet [ex_hello, ex_foo]) ex_bucket)) =
     [EvExists ''cas/8b1a9953c4611296a827abf8c47804d7-5'',
      EvExists ''cas/acbd18db4cc2f85cedef654fccc4a4d8-3''] \<and>
   (\<exists>evs. events (snd (Put ex_ToReader ex_ba (Context False) ex_foo
                   (NewCASBufferFromByteSlice ex_foo ''foo'' UserProvided) ex_bucket)) =
            EvNewWriter ''cas/acbd18db4cc2f85cedef654fccc4a4d8-3'' # evs) \<and>
   objects (snd (Put ex_ToReader ex_ba (Context False) ex_foo
             (NewCASBufferFromByteSlice ex_foo ''foo'' UserProvided) ex_bucket))
     ''cas/acbd18db4cc2f85cedef654fccc4a4d8-3'' = Some ''foo'' \<and>
   objects (snd (Put ex_ToReader ex_ba (Context False) ex_foo
             (NewCASBufferFromByteSlice ex_foo ''foo'' UserProvided) ex_bucket))
     ''cas/8b1a9953c4611296a827abf8c47804d7-5'' = Some ''Hello''"
proof -
  let ?kh = "''cas/8b1a9953c4611296a827abf8c47804d7-5''"
  let ?kf = "''cas/acbd18db4cc2f85cedef654fccc4a4d8-3''"
  let ?good = "NewCASBufferFromByteSlice ex_foo ''foo'' UserProvided"
  let ?S = "DigestSet [ex_hello, ex_foo]"
  have kh: "keyPrefix ex_ba @ GetDigestKey (storageType ex_ba) ex_hello = ?kh"
    using ex_hello_key by (simp add: getKey_def)
  have kf: "keyPrefix ex_ba @ GetDigestKey (storageType ex_ba) ex_foo = ?kf"
    using ex_foo_key by (simp add: getKey_def)
  note th = cloud_operations_use_prefixed_key
    [where ba = ex_ba and d = ex_hello and b = ex_bucket and sprintf = "\<lambda>s. s" and S = ?S,
     unfolded kh]
  note tf = cloud_operations_use_prefixed_key
    [where ba = ex_ba and d = ex_foo and b = ex_bucket and ToReader = ex_ToReader
       and ctx = "Context False" and buf = ?good, unfolded kf]
  note th1 = th [THEN conjunct1]
  note th2 = th [THEN conjunct2, THEN conjunct1]
  note th8 = th [THEN conjunct2, THEN conjunct2, THEN conjunct2, THEN conjunct2, THEN conjunct2,
                 THEN conjunct2, THEN conjunct2, THEN conjunct1]
  note th9 = th [THEN conjunct2, THEN conjunct2, THEN conjunct2, THEN conjunct2, THEN conjunct2,
                 THEN conjunct2, THEN conjunct2, THEN conjunct2]
  note tf4 = tf [THEN conjunct2, THEN conjunct2, THEN conjunct2, THEN conjunct1]
  note tf5 = tf [THEN conjunct2, THEN conjunct2, THEN conjunct2, THEN conjunct2, THEN conjunct1]
  note tf6 = tf [THEN conjunct2, THEN conjunct2, THEN conjunct2, THEN conjunct2, THEN conjunct2,
                 THEN conjunct1]
  have c1: "getKey ex_ba ex_hello = ?kh" by (rule th1)
  have c2: "events (snd (Get (\<lambda>s. s) ex_ba ex_hello ex_bucket)) = [EvNewReader ?kh]"
    unfolding th2 by (simp add: ex_bucket_def)
  have nr: "fst (bucket_NewReader ex_bucket ?kh) = Inr \<lparr>r_data = ''Hello'', r_err = None\<rparr>"
    using ex_NewReader_hello by (simp add: ex_hello_key)
  have c3: "\<exists>f. buffer_Repair (fst (Get (\<lambda>s. s) ex_ba ex_hello ex_bucket)) = Some f \<and>
        events (snd (f ex_bucket)) = [EvDelete ?kh] \<and> objects (snd (f ex_bucket)) = Map.empty"
  proof -
    obtain f where f: "buffer_Repair (fst (Get (\<lambda>s. s) ex_ba ex_hello ex_bucket)) = Some f"
      and a: "\<forall>b'. events (snd (f b')) = events b' @ [EvDelete ?kh] \<and>
                 (faults b' OpDelete ?kh = None \<longrightarrow>
                    objects (snd (f b')) = (objects b')(?kh := None)) \<and>
                 (\<forall>k. k \<noteq> ?kh \<longrightarrow> objects (snd (f b')) k = objects b' k)"
      using th9 [rule_format, OF nr] by (elim exE conjE) simp
    have e: "events (snd (f ex_bucket)) = events ex_bucket @ [EvDelete ?kh]"
      using a [rule_format, of ex_bucket] by simp
    have nf: "faults ex_bucket OpDelete ?kh = None" by (simp add: ex_bucket_def)
    have o: "objects (snd (f ex_bucket)) = (objects ex_bucket)(?kh := None)"
      using a [rule_format, of ex_bucket] nf by simp
    have "events (snd (f ex_bucket)) = [EvDelete ?kh]" using e by (simp add: ex_bucket_def)
    moreover have "objects (snd (f ex_bucket)) = Map.empty" using o by (simp add: ex_bucket_def)
    ultimately show ?thesis using f by (intro exI [of _ f]) simp
  qed
  have c4: "events (snd (FindMissing ex_ba ?S ex_bucket)) = [EvExists ?kh, EvExists ?kf]"
  proof -
    have nf: "\<forall>d' \<in> set (Items ?S).
        faults ex_bucket OpExists (keyPrefix ex_ba @ GetDigestKey (storageType ex_ba) d') = None"
      by (simp add: ex_bucket_def)
    have "events (snd (FindMissing ex_ba ?S ex_bucket)) =
        events ex_bucket @
        map (\<lambda>d'. EvExists (keyPrefix ex_ba @ GetDigestKey (storageType ex_ba) d')) (Items ?S)"
      by (rule th8 [THEN mp, OF nf])
    then show ?thesis by (simp add: kh kf ex_bucket_def)
  qed
  have f: "faults ex_bucket OpNewWriter ?kf = None" "write_fault ex_bucket ?kf = None"
    by (simp_all add: ex_bucket_def)
  note cp = ex_copy_foo [OF f, unfolded ex_foo_key]
  have c5: "\<exists>evs. events (snd (Put ex_ToReader ex_ba (Context False) ex_foo ?good ex_bucket)) =
            EvNewWriter ?kf # evs"
  proof -
    obtain evs where "events (snd (Put ex_ToReader ex_ba (Context False) ex_foo ?good ex_bucket)) =
            events ex_bucket @ EvNewWriter ?kf # evs"
      using tf4 by (elim exE conjE) simp
    then have "events (snd (Put ex_ToReader ex_ba (Context False) ex_foo ?good ex_bucket)) =
            EvNewWriter ?kf # evs" by (simp add: ex_bucket_def)
    then show ?thesis by (rule exI)
  qed
  have cl: "faults ex_bucket OpClose ?kf = None" by (simp add: ex_bucket_def)
  have nc: "\<not> cancelled (Context False)" by simp
  have c6: "objects (snd (Put ex_ToReader ex_ba (Context False) ex_foo ?good ex_bucket)) ?kf =
      Some ''foo''"
  proof -
    have pre: "fst (bucket_NewWriter ex_bucket ?kf) = Inr \<lparr>w_key = ?kf, w_data = []\<rparr> \<and>
        snd (fst (io_Copy \<lparr>w_key = ?kf, w_data = []\<rparr> (ex_ToReader ?good)
               (snd (bucket_NewWriter ex_bucket ?kf)))) = None \<and>
        \<not> cancelled (Context False) \<and> faults ex_bucket OpClose ?kf = None"
      using cp cl nc by simp
    have "objects (snd (Put ex_ToReader ex_ba (Context False) ex_foo ?good ex_bucket)) ?kf =
          Some (r_data (ex_ToReader ?good))"
      by (rule tf6 [rule_format, OF pre])
    then show ?thesis by simp
  qed
  have c7: "objects (snd (Put ex_ToReader ex_ba (Context False) ex_foo ?good ex_bucket)) ?kh =
      Some ''Hello''"
  proof -
    have ne: "?kh \<noteq> ?kf" by simp
    have "objects (snd (Put ex_ToReader ex_ba (Context False) ex_foo ?good ex_bucket)) ?kh =
          objects ex_bucket ?kh"
      by (rule tf5 [rule_format, OF ne])
    then show ?thesis by (simp add: ex_bucket_def)
  qed
  show ?thesis by (intro conjI c1 c2 c3 c4 c5 c6 c7)
qed

section \<open>Properties of the gRPC server\<close>

lemma NewDigestFromPartialDigest_Inr:
  "NewDigestFromPartialDigest instance pd = Inr d \<Longrightarrow>
   d = \<lparr>instanceName = instance, hash = Hash pd, sizeBytes = SizeBytes pd\<rparr>"
  by (simp add: NewDigestFromPartialDigest_def split: if_splits)

lemma GetPartialDigest_NewDigest:
  "NewDigestFromPartialDigest instance pd = Inr d \<Longrightarrow>
   GetPartialDigest d = pd \<and> instanceName d = instance"
  by (auto simp: GetPartialDigest_def dest!: NewDigestFromPartialDigest_Inr)

lemma collectDigests_all_parse:
  "\<forall>pd \<in> set pds. \<exists>d. NewDigestFromPartialDigest instance pd = Inr d \<Longrightarrow>
   \<exists>sb'. collectDigests instance pds sb = Inr sb' \<and>
     set sb' = set sb \<union> {d. \<exists>pd \<in> set pds. NewDigestFromPartialDigest instance pd = Inr d} \<and>
     (distinct sb \<longrightarrow> distinct sb')"
proof (induction pds arbitrary: sb)
  case Nil
  then show ?case by simp
next
  case (Cons pd pds)
  obtain d where d: "NewDigestFromPartialDigest instance pd = Inr d"
    using Cons.prems by auto
  obtain sb' where sb': "collectDigests instance pds (Add sb d) = Inr sb'"
    and s: "set sb' = set (Add sb d) \<union>
        {d. \<exists>pd \<in> set pds. NewDigestFromPartialDigest instance pd = Inr d}"
    and di: "distinct (Add sb d) \<longrightarrow> distinct sb'"
    using Cons.IH [of "Add sb d"] Cons.prems by auto
  have a: "set (Add sb d) = insert d (set sb)" by (auto simp: Add_def)
  have b: "distinct sb \<Longrightarrow> distinct (Add sb d)" by (simp add: Add_def)
  have "collectDigests instance (pd # pds) sb = Inr sb'" by (simp add: d sb')
  moreover have "set sb' = set sb \<union>
      {d. \<exists>pd \<in> set (pd # pds). NewDigestFromPartialDigest instance pd = Inr d}"
    using s a d by auto
  moreover have "distinct sb \<longrightarrow> distinct sb'" using di b by blast
  ultimately show ?case by blast
qed

text \<open>
  Claim C6. For a \<open>FindMissingBlobs\<close> request whose blob digests all parse, the server
  builds one digest set that holds exactly the digests of the request, each qualified by
  the instance name of the request, makes exactly one \<open>FindMissing\<close> call on the
  backend, with that set, and returns the partial digests of the items of the set that
  the backend returned, in their order; an error of the backend is returned as it is.
\<close>

theorem FindMissingBlobs_delegates:
  assumes "\<forall>pd \<in> set (fm_BlobDigests req).
             \<exists>d. NewDigestFromPartialDigest (fm_InstanceName req) pd = Inr d"
  shows "\<exists>inDigests.
     set (Items inDigests) =
       {d. \<exists>pd \<in> set (fm_BlobDigests req).
             NewDigestFromPartialDigest (fm_InstanceName req) pd = Inr d} \<and>
     distinct (Items inDigests) \<and>
     (\<forall>d \<in> set (Items inDigests).
        instanceName d = fm_InstanceName req \<and> GetPartialDigest d \<in> set (fm_BlobDigests req)) \<and>
     snd (snd (FindMissingBlobs cas req st)) = snd st @ [CallFindMissing inDigests] \<and>
     fst (snd (FindMissingBlobs cas req st)) = snd (ba_FindMissing cas inDigests (fst st)) \<and>
     fst (FindMissingBlobs cas req st) =
       (case fst (ba_FindMissing cas inDigests (fst st)) of
          (outDigests, None) \<Rightarrow>
            Inr \<lparr>MissingBlobDigests = map GetPartialDigest (Items outDigests)\<rparr>
        | (outDigests, Some err) \<Rightarrow> Inl err)"
proof -
  obtain sb where c: "collectDigests (fm_InstanceName req) (fm_BlobDigests req) NewSetBuilder = Inr sb"
    and s: "set sb = {d. \<exists>pd \<in> set (fm_BlobDigests req).
             NewDigestFromPartialDigest (fm_InstanceName req) pd = Inr d}"
    and di: "distinct sb"
    using collectDigests_all_parse [OF assms, of NewSetBuilder] by (auto simp: NewSetBuilder_def)
  obtain out err s' where fm: "ba_FindMissing cas (Build sb) (fst st) = ((out, err), s')"
    by (metis surj_pair)
  have q: "\<forall>d \<in> set (Items (Build sb)).
        instanceName d = fm_InstanceName req \<and> GetPartialDigest d \<in> set (fm_BlobDigests req)"
    using s GetPartialDigest_NewDigest by (fastforce simp: Build_def)
  have r: "snd (snd (FindMissingBlobs cas req st)) = snd st @ [CallFindMissing (Build sb)] \<and>
     fst (snd (FindMissingBlobs cas req st)) = s' \<and>
     fst (FindMissingBlobs cas req st) =
       (case err of None \<Rightarrow> Inr \<lparr>MissingBlobDigests = map GetPartialDigest (Items out)\<rparr>
        | Some e \<Rightarrow> Inl e)"
    by (cases err) (simp_all add: FindMissingBlobs_def c call_FindMissing_def fm)
  show ?thesis
    by (rule exI [of _ "Build sb"]) (use s di q r fm in \<open>simp add: Build_def\<close>)
qed

lemma ex_FindMissing:
  "fst (FindMissing ex_ba (DigestSet [ex_hello, ex_foo]) ex_bucket) = (DigestSet [ex_foo], None)"
  by (simp add: FindMissing_def bucket_Exists_def ex_hello_key ex_foo_key ex_bucket_def
      record_event_def Add_def Build_def NewSetBuilder_def)

lemma ex_parse_hello:
  "NewDigestFromPartialDigest ''main''
     \<lparr>Hash = ''8b1a9953c4611296a827abf8c47804d7'', SizeBytes = 5\<rparr> = Inr ex_hello"
  by (simp add: NewDigestFromPartialDigest_def ex_hello_def)

lemma ex_parse_foo:
  "NewDigestFromPartialDigest ''main''
     \<lparr>Hash = ''acbd18db4cc2f85cedef654fccc4a4d8'', SizeBytes = 3\<rparr> = Inr ex_foo"
  by (simp add: NewDigestFromPartialDigest_def ex_foo_def)

lemma ex_find_calls:
  "snd (snd (FindMissingBlobs ex_cloud ex_find_request (ex_bucket, []))) =
     [CallFindMissing (DigestSet [ex_hello, ex_foo])]"
proof -
  have ne: "ex_foo \<noteq> ex_hello" by (simp add: ex_foo_def ex_hello_def)
  have c: "collectDigests (fm_InstanceName ex_find_request) (fm_BlobDigests ex_find_request)
      NewSetBuilder = Inr [ex_hello, ex_foo]"
    by (simp add: ex_find_request_def ex_parse_hello ex_parse_foo NewSetBuilder_def Add_def ne)
  obtain out err s' where
    fm: "ba_FindMissing ex_cloud (DigestSet [ex_hello, ex_foo]) ex_bucket = ((out, err), s')"
    by (metis surj_pair)
  show ?thesis
    by (cases err) (simp_all add: FindMissingBlobs_def c call_FindMissing_def fm Build_def)
qed

theorem FindMissingBlobs_delegates_witness:
  "NewDigestFromPartialDigest ''main''
     \<lparr>Hash = ''8b1a9953c4611296a827abf8c47804d7'', SizeBytes = 5\<rparr> = Inr ex_hello \<and>
   NewDigestFromPartialDigest ''main''
     \<lparr>Hash = ''acbd18db4cc2f85cedef654fccc4a4d8'', SizeBytes = 3\<rparr> = Inr ex_foo \<and>
   snd (snd (FindMissingBlobs ex_cloud ex_find_request (ex_bucket, []))) =
     [CallFindMissing (DigestSet [ex_hello, ex_foo])] \<and>
   fst (FindMissingBlobs ex_cloud ex_find_request (ex_bucket, [])) =
     Inr \<lparr>MissingBlobDigests =
            [\<lparr>Hash = ''acbd18db4cc2f85cedef654fccc4a4d8'', SizeBytes = 3\<rparr>]\<rparr>"
proof -
  have h: "\<forall>pd \<in> set (fm_BlobDigests ex_find_request).
             \<exists>d. NewDigestFromPartialDigest (fm_InstanceName ex_find_request) pd = Inr d"
    by (simp add: ex_find_request_def ex_parse_hello ex_parse_foo)
  obtain inDigests where
    calls: "snd (snd (FindMissingBlobs ex_cloud ex_find_request (ex_bucket, []))) =
        snd (ex_bucket, []) @ [CallFindMissing inDigests]"
    and r: "fst (FindMissingBlobs ex_cloud ex_find_request (ex_bucket, [])) =
       (case fst (ba_FindMissing ex_cloud inDigests (fst (ex_bucket, []))) of
          (outDigests, None) \<Rightarrow>
            Inr \<lparr>MissingBlobDigests = map GetPartialDigest (Items outDigests)\<rparr>
        | (outDigests, Some err) \<Rightarrow> Inl err)"
    using FindMissingBlobs_delegates [OF h, of ex_cloud "(ex_bucket, [])"]
    by (elim exE conjE) simp
  have i: "inDigests = DigestSet [ex_hello, ex_foo]"
    using calls ex_find_calls by simp
  have "fst (FindMissingBlobs ex_cloud ex_find_request (ex_bucket, [])) =
     Inr \<lparr>MissingBlobDigests = map GetPartialDigest [ex_foo]\<rparr>"
    using r unfolding i by (simp add: ex_cloud_def ex_FindMissing)
  then have "fst (FindMissingBlobs ex_cloud ex_find_request (ex_bucket, [])) =
     Inr \<lparr>MissingBlobDigests =
            [\<lparr>Hash = ''acbd18db4cc2f85cedef654fccc4a4d8'', SizeBytes = 3\<rparr>]\<rparr>"
    by (simp add: GetPartialDigest_def ex_foo_def)
  then show ?thesis using ex_parse_hello ex_parse_foo ex_find_calls by simp
qed


lemma updateBlob_eq:
  "updateBlob cas inst request st =
     (\<lparr>resp_Digest = req_Digest request,
       resp_Status = status_Convert (fst (element_put cas inst request (fst st)))\<rparr>,
      (snd (element_put cas inst request (fst st)),
       snd st @
       (case NewDigestFromPartialDigest inst (req_Digest request) of
          Inl err \<Rightarrow> []
        | Inr d \<Rightarrow> [CallPut d (NewCASBufferFromByteSlice d (req_Data request) UserProvided)])))"
  by (cases st)
     (simp add: updateBlob_def element_put_def call_Put_def split: sum.splits prod.splits)

lemma fanOut_length:
  "\<forall>i \<in> set sched. i < length requests \<Longrightarrow>
   length (fst (fanOut cas inst requests sched st)) = length sched"
proof (induction sched arbitrary: st)
  case Nil
  then show ?case by simp
next
  case (Cons i sched)
  obtain r st' where u: "updateBlob cas inst (requests ! i) st = (r, st')"
    by (metis surj_pair)
  obtain rs st'' where f: "fanOut cas inst requests sched st' = (rs, st'')"
    by (metis surj_pair)
  have "length rs = length sched" using Cons.IH [of st'] Cons.prems f by simp
  then show ?case using Cons.prems by (simp add: u f)
qed

lemma fanOut_state:
  "\<forall>i \<in> set sched. i < length requests \<Longrightarrow>
   fst (snd (fanOut cas inst requests sched st)) =
     state_after cas inst (map (\<lambda>i. requests ! i) sched) (fst st)"
proof (induction sched arbitrary: st)
  case Nil
  then show ?case by (simp add: state_after_def)
next
  case (Cons i sched)
  obtain r st' where u: "updateBlob cas inst (requests ! i) st = (r, st')"
    by (metis surj_pair)
  obtain rs st'' where f: "fanOut cas inst requests sched st' = (rs, st'')"
    by (metis surj_pair)
  have s: "fst st' = snd (element_put cas inst (requests ! i) (fst st))"
    using u by (auto simp: updateBlob_eq)
  have "fst st'' = state_after cas inst (map (\<lambda>i. requests ! i) sched) (fst st')"
    using Cons.IH [of st'] Cons.prems f by simp
  then have "fst st'' = state_after cas inst (map (\<lambda>i. requests ! i) (i # sched)) (fst st)"
    by (simp add: s state_after_def)
  moreover have "fanOut cas inst requests (i # sched) st = (r # rs, st'')"
    using Cons.prems u f by simp
  ultimately show ?case by simp
qed

lemma fanOut_calls:
  "\<forall>i \<in> set sched. i < length requests \<Longrightarrow>
   snd (snd (fanOut cas inst requests sched st)) =
     snd st @ concat (map (\<lambda>i.
       case NewDigestFromPartialDigest inst (req_Digest (requests ! i)) of
         Inl err \<Rightarrow> []
       | Inr d \<Rightarrow> [CallPut d (NewCASBufferFromByteSlice d (req_Data (requests ! i)) UserProvided)])
       sched)"
proof (induction sched arbitrary: st)
  case Nil
  then show ?case by simp
next
  case (Cons i sched)
  obtain r st' where u: "updateBlob cas inst (requests ! i) st = (r, st')"
    by (metis surj_pair)
  obtain rs st'' where f: "fanOut cas inst requests sched st' = (rs, st'')"
    by (metis surj_pair)
  have c: "snd st' = snd st @
     (case NewDigestFromPartialDigest inst (req_Digest (requests ! i)) of
        Inl err \<Rightarrow> []
      | Inr d \<Rightarrow> [CallPut d (NewCASBufferFromByteSlice d (req_Data (requests ! i)) UserProvided)])"
    using u by (auto simp: updateBlob_eq)
  have "snd st'' = snd st' @ concat (map (\<lambda>i.
       case NewDigestFromPartialDigest inst (req_Digest (requests ! i)) of
         Inl err \<Rightarrow> []
       | Inr d \<Rightarrow> [CallPut d (NewCASBufferFromByteSlice d (req_Data (requests ! i)) UserProvided)])
       sched)"
    using Cons.IH [of st'] Cons.prems f by simp
  then have "snd st'' = snd st @ concat (map (\<lambda>i.
       case NewDigestFromPartialDigest inst (req_Digest (requests ! i)) of
         Inl err \<Rightarrow> []
       | Inr d \<Rightarrow> [CallPut d (NewCASBufferFromByteSlice d (req_Data (requests ! i)) UserProvided)])
       (i # sched))"
    by (simp add: c)
  moreover have "fanOut cas inst requests (i # sched) st = (r # rs, st'')"
    using Cons.prems u f by simp
  ultimately show ?case by simp
qed

lemma fanOut_nth:
  "\<forall>i \<in> set sched. i < length requests \<Longrightarrow> j < length sched \<Longrightarrow>
   fst (fanOut cas inst requests sched st) ! j =
     \<lparr>resp_Digest = req_Digest (requests ! (sched ! j)),
      resp_Status = status_Convert (fst (element_put cas inst (requests ! (sched ! j))
        (state_after cas inst (map (\<lambda>i. requests ! i) (take j sched)) (fst st))))\<rparr>"
proof (induction sched arbitrary: st j)
  case Nil
  then show ?case by simp
next
  case (Cons i sched)
  obtain r st' where u: "updateBlob cas inst (requests ! i) st = (r, st')"
    by (metis surj_pair)
  obtain rs st'' where f: "fanOut cas inst requests sched st' = (rs, st'')"
    by (metis surj_pair)
  have r: "r = \<lparr>resp_Digest = req_Digest (requests ! i),
       resp_Status = status_Convert (fst (element_put cas inst (requests ! i) (fst st)))\<rparr>"
    using u by (auto simp: updateBlob_eq)
  have s: "fst st' = snd (element_put cas inst (requests ! i) (fst st))"
    using u by (auto simp: updateBlob_eq)
  have all: "fanOut cas inst requests (i # sched) st = (r # rs, st'')"
    using Cons.prems(1) u f by simp
  show ?case
  proof (cases j)
    case 0
    show ?thesis unfolding all by (simp add: 0 r state_after_def)
  next
    case (Suc j')
    have j': "j' < length sched" using Cons.prems(2) Suc by simp
    have "rs ! j' =
     \<lparr>resp_Digest = req_Digest (requests ! (sched ! j')),
      resp_Status = status_Convert (fst (element_put cas inst (requests ! (sched ! j'))
        (state_after cas inst (map (\<lambda>i. requests ! i) (take j' sched)) (fst st'))))\<rparr>"
      using Cons.IH [of j' st'] Cons.prems(1) j' f by simp
    then show ?thesis unfolding all by (simp add: Suc s state_after_def)
  qed
qed

lemma schedule_in_range:
  "mset sched = mset [0..<n] \<Longrightarrow> \<forall>i \<in> set sched. i < n"
  by (metis atLeastLessThan_iff set_mset_mset set_upt)

lemma schedule_covers:
  assumes "mset sched = mset [0..<length xs]"
  shows "mset (map (\<lambda>i. f (xs ! i)) sched) = mset (map f xs)"
proof -
  have "mset (map (\<lambda>i. f (xs ! i)) sched) = image_mset (\<lambda>i. f (xs ! i)) (mset sched)"
    by simp
  also have "\<dots> = mset (map (\<lambda>i. f (xs ! i)) [0..<length xs])"
    by (simp add: assms)
  also have "map (\<lambda>i. f (xs ! i)) [0..<length xs] = map f (map (\<lambda>i. xs ! i) [0..<length xs])"
    by simp
  also have "\<dots> = map f xs" by (simp add: map_nth)
  finally show ?thesis .
qed

text \<open>
  Claim C3. For every \<open>BatchUpdateBlobs\<close> request and every order in which the
  functions started for its elements run, the method returns, with no error, a response
  that holds one element response per request element. The response in each position
  carries the digest of the element that ran in that position; its status is the
  conversion of the error of parsing that digest or, when the digest parses, of the result
  of the \<open>Put\<close> of the element's data made in the state in which the elements before
  it had left the backend: a failure is recorded in the status of its element. The
  backend is left in the state after the last element, and one \<open>Put\<close> has been made
  for every element whose digest parses, and none for the others.
\<close>

theorem BatchUpdateBlobs_per_element_status:
  assumes "mset sched = mset [0..<length (bu_Requests req)]"
  shows "\<exists>resp st'.
     BatchUpdateBlobs cas req sched st = Some ((resp, None), st') \<and>
     length (Responses resp) = length (bu_Requests req) \<and>
     (\<forall>j < length (bu_Requests req).
        resp_Digest (Responses resp ! j) = req_Digest (bu_Requests req ! (sched ! j)) \<and>
        (\<forall>err. NewDigestFromPartialDigest (bu_InstanceName req)
                 (req_Digest (bu_Requests req ! (sched ! j))) = Inl err \<longrightarrow>
           resp_Status (Responses resp ! j) = status_Convert (Some err)) \<and>
        (\<forall>d. NewDigestFromPartialDigest (bu_InstanceName req)
               (req_Digest (bu_Requests req ! (sched ! j))) = Inr d \<longrightarrow>
           resp_Status (Responses resp ! j) =
             status_Convert (fst (ba_Put cas d
               (NewCASBufferFromByteSlice d (req_Data (bu_Requests req ! (sched ! j))) UserProvided)
               (state_after cas (bu_InstanceName req)
                  (map (\<lambda>i. bu_Requests req ! i) (take j sched)) (fst st)))))) \<and>
     mset (map resp_Digest (Responses resp)) = mset (map req_Digest (bu_Requests req)) \<and>
     fst st' = state_after cas (bu_InstanceName req) (map (\<lambda>i. bu_Requests req ! i) sched) (fst st) \<and>
     snd st' = snd st @ concat (map (\<lambda>i.
       case NewDigestFromPartialDigest (bu_InstanceName req) (req_Digest (bu_Requests req ! i)) of
         Inl err \<Rightarrow> []
       | Inr d \<Rightarrow>
           [CallPut d (NewCASBufferFromByteSlice d (req_Data (bu_Requests req ! i)) UserProvided)])
       sched)"
proof -
  let ?reqs = "bu_Requests req"
  let ?inst = "bu_InstanceName req"
  have rng: "\<forall>i \<in> set sched. i < length ?reqs" by (rule schedule_in_range [OF assms])
  have len: "length sched = length ?reqs"
    using assms by (metis length_upt minus_nat.diff_0 size_mset)
  obtain rs st' where f: "fanOut cas ?inst ?reqs sched st = (rs, st')"
    by (metis surj_pair)
  have lrs: "length rs = length ?reqs"
    using fanOut_length [OF rng, of cas ?inst st] f len by simp
  have nth: "\<And>j. j < length ?reqs \<Longrightarrow> rs ! j =
     \<lparr>resp_Digest = req_Digest (?reqs ! (sched ! j)),
      resp_Status = status_Convert (fst (element_put cas ?inst (?reqs ! (sched ! j))
        (state_after cas ?inst (map (\<lambda>i. ?reqs ! i) (take j sched)) (fst st))))\<rparr>"
    using fanOut_nth [OF rng, of _ cas ?inst st] f len by simp
  have dig: "map resp_Digest rs = map (\<lambda>i. req_Digest (?reqs ! i)) sched"
    by (rule nth_equalityI) (simp_all add: lrs len nth)
  have ms: "mset (map resp_Digest rs) = mset (map req_Digest ?reqs)"
    unfolding dig by (rule schedule_covers [OF assms])
  have state: "fst st' = state_after cas ?inst (map (\<lambda>i. ?reqs ! i) sched) (fst st)"
    using fanOut_state [OF rng, of cas ?inst st] f by simp
  have calls: "snd st' = snd st @ concat (map (\<lambda>i.
       case NewDigestFromPartialDigest ?inst (req_Digest (?reqs ! i)) of
         Inl err \<Rightarrow> []
       | Inr d \<Rightarrow> [CallPut d (NewCASBufferFromByteSlice d (req_Data (?reqs ! i)) UserProvided)])
       sched)"
    using fanOut_calls [OF rng, of cas ?inst st] f by simp
  have b: "BatchUpdateBlobs cas req sched st = Some ((\<lparr>Responses = rs\<rparr>, None), st')"
    by (simp add: BatchUpdateBlobs_def f lrs)
  have el: "\<forall>j < length ?reqs.
        resp_Digest (rs ! j) = req_Digest (?reqs ! (sched ! j)) \<and>
        (\<forall>err. NewDigestFromPartialDigest ?inst (req_Digest (?reqs ! (sched ! j))) = Inl err \<longrightarrow>
           resp_Status (rs ! j) = status_Convert (Some err)) \<and>
        (\<forall>d. NewDigestFromPartialDigest ?inst (req_Digest (?reqs ! (sched ! j))) = Inr d \<longrightarrow>
           resp_Status (rs ! j) =
             status_Convert (fst (ba_Put cas d
               (NewCASBufferFromByteSlice d (req_Data (?reqs ! (sched ! j))) UserProvided)
               (state_after cas ?inst (map (\<lambda>i. ?reqs ! i) (take j sched)) (fst st)))))"
    by (simp add: nth element_put_def)
  show ?thesis
    by (intro exI [of _ "\<lparr>Responses = rs\<rparr>"] exI [of _ st'])
       (use b lrs el ms state calls in simp)
qed

lemma ex_schedule:
  "mset [1, 0] = mset [0..<length (bu_Requests ex_update_request)]"
  by (simp add: ex_update_request_def upt_rec)

lemma ex_parse_bad:
  "NewDigestFromPartialDigest ''main'' \<lparr>Hash = ''not a hash'', SizeBytes = 3\<rparr> =
     Inl (StatusError Code_InvalidArgument ''Unknown digest hash length'')"
  by (simp add: NewDigestFromPartialDigest_def)

lemma ex_Put_foo:
  "Put ex_ToReader ex_ba (Context False) ex_foo
     (NewCASBufferFromByteSlice ex_foo ''foo'' UserProvided) ex_bucket =
   (None, ex_bucket\<lparr>objects := (objects ex_bucket)
              (''cas/acbd18db4cc2f85cedef654fccc4a4d8-3'' \<mapsto> ''foo''),
            events := events ex_bucket @
              [EvNewWriter ''cas/acbd18db4cc2f85cedef654fccc4a4d8-3'',
               EvWrite ''cas/acbd18db4cc2f85cedef654fccc4a4d8-3'',
               EvClose ''cas/acbd18db4cc2f85cedef654fccc4a4d8-3'',
               EvCancel ''cas/acbd18db4cc2f85cedef654fccc4a4d8-3'']\<rparr>)"
proof -
  let ?kf = "''cas/acbd18db4cc2f85cedef654fccc4a4d8-3''"
  have f: "faults ex_bucket OpNewWriter ?kf = None" "write_fault ex_bucket ?kf = None"
    by (simp_all add: ex_bucket_def)
  note cp = ex_copy_foo [OF f]
  have cl: "faults ex_bucket OpClose (getKey ex_ba ex_foo) = None" by (simp add: ex_bucket_def)
  have nc: "\<not> cancelled (Context False)" by simp
  show ?thesis
    using Put_commits [where ToReader = ex_ToReader and ba = ex_ba and d = ex_foo
        and b = ex_bucket and ctx = "Context False"
        and buf = "NewCASBufferFromByteSlice ex_foo ''foo'' UserProvided",
        OF conjunct1 [OF cp] conjunct1 [OF conjunct2 [OF cp]] nc cl]
    by (simp add: ex_foo_key)
qed

lemma two_elements: "length xs = 2 \<Longrightarrow> xs = [xs ! 0, xs ! 1]"
  by (cases xs; cases "tl xs") auto

theorem BatchUpdateBlobs_per_element_status_witness:
  "mset [1, 0] = mset [0..<length (bu_Requests ex_update_request)] \<and>
   (\<exists>resp st'.
      BatchUpdateBlobs ex_cloud ex_update_request [1, 0] (ex_bucket, []) =
        Some ((resp, None), st') \<and>
      map resp_Digest (Responses resp) =
        [\<lparr>Hash = ''not a hash'', SizeBytes = 3\<rparr>,
         \<lparr>Hash = ''acbd18db4cc2f85cedef654fccc4a4d8'', SizeBytes = 3\<rparr>] \<and>
      map resp_Status (Responses resp) =
        [\<lparr>st_code = Code_InvalidArgument, st_message = ''Unknown digest hash length''\<rparr>,
         \<lparr>st_code = Code_OK, st_message = []\<rparr>] \<and>
      objects (fst st') ''cas/acbd18db4cc2f85cedef654fccc4a4d8-3'' = Some ''foo'' \<and>
      snd st' = [CallPut ex_foo (NewCASBufferFromByteSlice ex_foo ''foo'' UserProvided)])"
proof -
  let ?reqs = "bu_Requests ex_update_request"
  let ?good = "NewCASBufferFromByteSlice ex_foo ''foo'' UserProvided"
  let ?rfoo = "\<lparr>req_Digest = \<lparr>Hash = ''acbd18db4cc2f85cedef654fccc4a4d8'', SizeBytes = 3\<rparr>,
          req_Data = ''foo''\<rparr>"
  let ?rbad = "\<lparr>req_Digest = \<lparr>Hash = ''not a hash'', SizeBytes = 3\<rparr>, req_Data = ''bar''\<rparr>"
  have reqs: "?reqs = [?rfoo, ?rbad]"
    and inst: "bu_InstanceName ex_update_request = ''main''"
    by (simp_all add: ex_update_request_def)
  have put: "ba_Put ex_cloud = Put ex_ToReader ex_ba (Context False)"
    by (simp add: ex_cloud_def)
  have e1: "element_put ex_cloud ''main'' ?rbad ex_bucket =
      (Some (StatusError Code_InvalidArgument ''Unknown digest hash length''), ex_bucket)"
    by (simp add: element_put_def ex_parse_bad)
  have e0: "element_put ex_cloud ''main'' ?rfoo ex_bucket =
      Put ex_ToReader ex_ba (Context False) ex_foo ?good ex_bucket"
    by (simp add: element_put_def ex_parse_foo put)
  obtain resp st' where
    b: "BatchUpdateBlobs ex_cloud ex_update_request [1, 0] (ex_bucket, []) =
          Some ((resp, None), st')"
    and len: "length (Responses resp) = length ?reqs"
    and el: "\<forall>j < length ?reqs.
        resp_Digest (Responses resp ! j) = req_Digest (?reqs ! ([1, 0] ! j)) \<and>
        (\<forall>err. NewDigestFromPartialDigest (bu_InstanceName ex_update_request)
                 (req_Digest (?reqs ! ([1, 0] ! j))) = Inl err \<longrightarrow>
           resp_Status (Responses resp ! j) = status_Convert (Some err)) \<and>
        (\<forall>d. NewDigestFromPartialDigest (bu_InstanceName ex_update_request)
               (req_Digest (?reqs ! ([1, 0] ! j))) = Inr d \<longrightarrow>
           resp_Status (Responses resp ! j) =
             status_Convert (fst (ba_Put ex_cloud d
               (NewCASBufferFromByteSlice d (req_Data (?reqs ! ([1, 0] ! j))) UserProvided)
               (state_after ex_cloud (bu_InstanceName ex_update_request)
                  (map (\<lambda>i. ?reqs ! i) (take j [1, 0])) (fst (ex_bucket, [] :: ba_call list))))))"
    and state: "fst st' = state_after ex_cloud (bu_InstanceName ex_update_request)
        (map (\<lambda>i. ?reqs ! i) [1, 0]) (fst (ex_bucket, [] :: ba_call list))"
    and calls: "snd st' = snd (ex_bucket, [] :: ba_call list) @ concat (map (\<lambda>i.
       case NewDigestFromPartialDigest (bu_InstanceName ex_update_request)
              (req_Digest (?reqs ! i)) of
         Inl err \<Rightarrow> []
       | Inr d \<Rightarrow> [CallPut d (NewCASBufferFromByteSlice d (req_Data (?reqs ! i)) UserProvided)])
       [1, 0])"
    using BatchUpdateBlobs_per_element_status [OF ex_schedule, of ex_cloud "(ex_bucket, [])"]
    by (elim exE conjE) simp
  have el0: "resp_Digest (Responses resp ! 0) = \<lparr>Hash = ''not a hash'', SizeBytes = 3\<rparr> \<and>
      resp_Status (Responses resp ! 0) =
        \<lparr>st_code = Code_InvalidArgument, st_message = ''Unknown digest hash length''\<rparr>"
    using el [rule_format, of 0] by (simp add: reqs inst ex_parse_bad)
  have el1: "resp_Digest (Responses resp ! 1) =
        \<lparr>Hash = ''acbd18db4cc2f85cedef654fccc4a4d8'', SizeBytes = 3\<rparr> \<and>
      resp_Status (Responses resp ! 1) = \<lparr>st_code = Code_OK, st_message = []\<rparr>"
  proof -
    have a: "resp_Digest (Responses resp ! 1) = req_Digest ?rfoo \<and>
        (\<forall>d. NewDigestFromPartialDigest ''main'' (req_Digest ?rfoo) = Inr d \<longrightarrow>
           resp_Status (Responses resp ! 1) =
             status_Convert (fst (ba_Put ex_cloud d
               (NewCASBufferFromByteSlice d (req_Data ?rfoo) UserProvided)
               (state_after ex_cloud ''main'' [?rbad] ex_bucket))))"
      using el [rule_format, of 1] by (simp add: reqs inst)
    have s1: "state_after ex_cloud ''main'' [?rbad] ex_bucket = ex_bucket"
      by (simp add: state_after_def e1)
    have p: "NewDigestFromPartialDigest ''main'' (req_Digest ?rfoo) = Inr ex_foo"
      by (simp add: ex_parse_foo)
    have "resp_Status (Responses resp ! 1) =
        status_Convert (fst (ba_Put ex_cloud ex_foo
               (NewCASBufferFromByteSlice ex_foo (req_Data ?rfoo) UserProvided) ex_bucket))"
      using a p unfolding s1 by blast
    then have "resp_Status (Responses resp ! 1) = \<lparr>st_code = Code_OK, st_message = []\<rparr>"
      by (simp add: put ex_Put_foo)
    then show ?thesis using a by simp
  qed
  have l2: "length (Responses resp) = 2" using len by (simp add: reqs)
  have rs: "Responses resp = [Responses resp ! 0, Responses resp ! 1]"
    by (rule two_elements [OF l2])
  have dg: "map resp_Digest (Responses resp) =
        [\<lparr>Hash = ''not a hash'', SizeBytes = 3\<rparr>,
         \<lparr>Hash = ''acbd18db4cc2f85cedef654fccc4a4d8'', SizeBytes = 3\<rparr>]"
    by (subst rs) (use el0 el1 in simp)
  have st: "map resp_Status (Responses resp) =
        [\<lparr>st_code = Code_InvalidArgument, st_message = ''Unknown digest hash length''\<rparr>,
         \<lparr>st_code = Code_OK, st_message = []\<rparr>]"
    by (subst rs) (use el0 el1 in simp)
  have s2: "state_after ex_cloud ''main'' [?rbad, ?rfoo] ex_bucket =
      snd (Put ex_ToReader ex_ba (Context False) ex_foo ?good ex_bucket)"
    by (simp add: state_after_def e1 e0)
  have "fst st' = state_after ex_cloud ''main'' [?rbad, ?rfoo] ex_bucket"
    using state by (simp add: reqs inst)
  then have ob: "objects (fst st') ''cas/acbd18db4cc2f85cedef654fccc4a4d8-3'' = Some ''foo''"
    unfolding s2 by (simp add: ex_Put_foo)
  have cs: "snd st' = [CallPut ex_foo ?good]"
    using calls by (simp add: inst reqs ex_parse_bad ex_parse_foo)
  have "\<exists>resp st'.
      BatchUpdateBlobs ex_cloud ex_update_request [1, 0] (ex_bucket, []) =
        Some ((resp, None), st') \<and>
      map resp_Digest (Responses resp) =
        [\<lparr>Hash = ''not a hash'', SizeBytes = 3\<rparr>,
         \<lparr>Hash = ''acbd18db4cc2f85cedef654fccc4a4d8'', SizeBytes = 3\<rparr>] \<and>
      map resp_Status (Responses resp) =
        [\<lparr>st_code = Code_InvalidArgument, st_message = ''Unknown digest hash length''\<rparr>,
         \<lparr>st_code = Code_OK, st_message = []\<rparr>] \<and>
      objects (fst st') ''cas/acbd18db4cc2f85cedef654fccc4a4d8-3'' = Some ''foo'' \<and>
      snd st' = [CallPut ex_foo ?good]"
    by (rule exI [of _ resp], rule exI [of _ st']) (intro conjI b dg st ob cs)
  then show ?thesis using ex_schedule by (rule conjI [rotated])
qed

section \<open>Properties of the content addressable storage\<close>

lemma uint64_of_size:
  "0 \<le> n \<Longrightarrow> n < 2 ^ 64 \<Longrightarrow> uint (word_of_int n :: 64 word) = n"
  by (simp add: uint_word_of_int take_bit_int_eq_self)

lemma size_exceeds:
  assumes "uint m < n" and "n < 2 ^ 63"
  shows "(word_of_int n :: 64 word) > m"
proof -
  have "0 \<le> n" using assms(1) uint_ge_0 [of m] by linarith
  moreover have "n < 2 ^ 64" using assms(2) by simp
  ultimately have "uint (word_of_int n :: 64 word) = n" by (rule uint64_of_size)
  then show ?thesis using assms(1) by (simp add: word_less_def)
qed

lemma size_within:
  assumes "0 \<le> n" and "n \<le> uint (m :: 64 word)"
  shows "\<not> (word_of_int n :: 64 word) > m"
proof -
  have "uint m < 2 ^ 64" using uint_bounded [of m] by simp
  then have "n < 2 ^ 64" using assms(2) by linarith
  then have "uint (word_of_int n :: 64 word) = n" using assms(1) by (simp add: uint64_of_size)
  then show ?thesis using assms(2) by (simp add: word_less_def)
qed

lemma getMessage_rejects:
  assumes "uint (maximumMessageSizeBytes cas) < sizeBytes d" and "sizeBytes d < 2 ^ 63"
  shows "\<exists>m. getMessage cas d unmarshal st = (Inl (StatusError Code_InvalidArgument m), st)"
  using size_exceeds [OF assms] by (simp add: getMessage_def)

lemma getMessage_reads:
  assumes "0 \<le> sizeBytes d" and "sizeBytes d \<le> uint (maximumMessageSizeBytes cas)"
  shows "getMessage cas d unmarshal st =
     (case rba_Get (blobAccess cas) d (fst st) of
        (Inl err, s') \<Rightarrow> (Inl err, (s', snd st @ [CallGet d]))
      | (Inr r, s') \<Rightarrow>
          (case r_err r of
             Some err \<Rightarrow> (Inl err, (s', snd st @ [CallGet d]))
           | None \<Rightarrow> (unmarshal (r_data r), (s', snd st @ [CallGet d]))))"
  using size_within [OF assms]
  by (simp add: getMessage_def call_Get_def ioutil_ReadAll_def
      split: prod.splits sum.splits option.splits)

lemma getters_are_getMessage:
  "GetAction cas d unmarshal st = getMessage cas d unmarshal st"
  "GetUncachedActionResult cas d unmarshal st = getMessage cas d unmarshal st"
  "GetCommand cas d unmarshal st = getMessage cas d unmarshal st"
  "GetDirectory cas d unmarshal st = getMessage cas d unmarshal st"
  "GetTree cas d unmarshal st = getMessage cas d unmarshal st"
  by (simp_all add: GetAction_def GetUncachedActionResult_def GetCommand_def GetDirectory_def
      GetTree_def split: prod.splits sum.splits)

text \<open>
  Claim C7. For a digest whose size, an \<open>int64\<close>, exceeds the maximum message size,
  \<open>getMessage\<close> and the five typed getters fail with InvalidArgument and leave the
  backend and the trace of its calls as they were: no \<open>Get\<close> is made. For a digest
  whose size is within the bound, one \<open>Get\<close> is made, and when it yields a reader that
  ends without an error the result is the decoding of all the bytes of the reader.
\<close>

theorem getMessage_enforces_maximum_size:
  "(uint (maximumMessageSizeBytes cas) < sizeBytes d \<and> sizeBytes d < 2 ^ 63 \<longrightarrow>
      (\<exists>e. status_Code e = Code_InvalidArgument \<and>
           getMessage cas d unmarshal st = (Inl e, st) \<and>
           GetAction cas d unmarshal st = (Inl e, st) \<and>
           GetCommand cas d unmarshal st = (Inl e, st) \<and>
           GetDirectory cas d unmarshal st = (Inl e, st) \<and>
           GetTree cas d unmarshal st = (Inl e, st) \<and>
           GetUncachedActionResult cas d unmarshal st = (Inl e, st))) \<and>
   (0 \<le> sizeBytes d \<and> sizeBytes d \<le> uint (maximumMessageSizeBytes cas) \<longrightarrow>
      snd (snd (getMessage cas d unmarshal st)) = snd st @ [CallGet d] \<and>
      (\<forall>r. fst (rba_Get (blobAccess cas) d (fst st)) = Inr r \<and> r_err r = None \<longrightarrow>
         fst (getMessage cas d unmarshal st) = unmarshal (r_data r)) \<and>
      GetAction cas d unmarshal st = getMessage cas d unmarshal st \<and>
      GetCommand cas d unmarshal st = getMessage cas d unmarshal st \<and>
      GetDirectory cas d unmarshal st = getMessage cas d unmarshal st \<and>
      GetTree cas d unmarshal st = getMessage cas d unmarshal st \<and>
      GetUncachedActionResult cas d unmarshal st = getMessage cas d unmarshal st)"
proof (intro conjI impI)
  assume h: "uint (maximumMessageSizeBytes cas) < sizeBytes d \<and> sizeBytes d < 2 ^ 63"
  obtain m where m: "getMessage cas d unmarshal st = (Inl (StatusError Code_InvalidArgument m), st)"
    using getMessage_rejects [OF conjunct1 [OF h] conjunct2 [OF h]] by blast
  show "\<exists>e. status_Code e = Code_InvalidArgument \<and>
           getMessage cas d unmarshal st = (Inl e, st) \<and>
           GetAction cas d unmarshal st = (Inl e, st) \<and>
           GetCommand cas d unmarshal st = (Inl e, st) \<and>
           GetDirectory cas d unmarshal st = (Inl e, st) \<and>
           GetTree cas d unmarshal st = (Inl e, st) \<and>
           GetUncachedActionResult cas d unmarshal st = (Inl e, st)"
    by (rule exI [of _ "StatusError Code_InvalidArgument m"]) (simp add: getters_are_getMessage m)
next
  assume h: "0 \<le> sizeBytes d \<and> sizeBytes d \<le> uint (maximumMessageSizeBytes cas)"
  note g = getMessage_reads [OF conjunct1 [OF h] conjunct2 [OF h], of unmarshal st]
  show "snd (snd (getMessage cas d unmarshal st)) = snd st @ [CallGet d]"
    by (simp add: g split: prod.splits sum.splits option.splits)
  show "\<forall>r. fst (rba_Get (blobAccess cas) d (fst st)) = Inr r \<and> r_err r = None \<longrightarrow>
         fst (getMessage cas d unmarshal st) = unmarshal (r_data r)"
    by (auto simp: g split: prod.splits sum.splits option.splits)
qed (simp_all add: getters_are_getMessage)

theorem getMessage_enforces_maximum_size_witness:
  "uint (maximumMessageSizeBytes ex_cas) < sizeBytes ex_hello \<and>
   sizeBytes ex_hello < 2 ^ 63 \<and>
   (\<exists>e. status_Code e = Code_InvalidArgument \<and>
        getMessage ex_cas ex_hello ex_unmarshal (Map.empty, []) = (Inl e, (Map.empty, []))) \<and>
   0 \<le> sizeBytes ex_foo \<and>
   sizeBytes ex_foo \<le> uint (maximumMessageSizeBytes ex_cas) \<and>
   fst (rba_Get (blobAccess ex_cas) ex_foo (fst ([ex_foo \<mapsto> ''foo''], []))) =
     Inr \<lparr>r_data = ''foo'', r_err = None\<rparr> \<and>
   fst (getMessage ex_cas ex_foo ex_unmarshal ([ex_foo \<mapsto> ''foo''], [])) = Inr ''foo'' \<and>
   snd (snd (getMessage ex_cas ex_foo ex_unmarshal ([ex_foo \<mapsto> ''foo''], []))) =
     [CallGet ex_foo]"
proof -
  have h1: "uint (maximumMessageSizeBytes ex_cas) < sizeBytes ex_hello \<and>
      sizeBytes ex_hello < 2 ^ 63"
    by (simp add: ex_cas_def ex_hello_def)
  have h2: "0 \<le> sizeBytes ex_foo \<and> sizeBytes ex_foo \<le> uint (maximumMessageSizeBytes ex_cas)"
    by (simp add: ex_cas_def ex_foo_def)
  have g: "fst (rba_Get (blobAccess ex_cas) ex_foo (fst ([ex_foo \<mapsto> ''foo''], []))) =
     Inr \<lparr>r_data = ''foo'', r_err = None\<rparr>"
    by (simp add: ex_cas_def ex_store_def)
  have a: "\<exists>e. status_Code e = Code_InvalidArgument \<and>
        getMessage ex_cas ex_hello ex_unmarshal (Map.empty, []) = (Inl e, (Map.empty, []))"
    using getMessage_enforces_maximum_size
      [where cas = ex_cas and d = ex_hello and unmarshal = ex_unmarshal
         and st = "(Map.empty, [])"] h1
    by blast
  have b: "snd (snd (getMessage ex_cas ex_foo ex_unmarshal ([ex_foo \<mapsto> ''foo''], []))) =
        snd ([ex_foo \<mapsto> ''foo''], []) @ [CallGet ex_foo] \<and>
      fst (getMessage ex_cas ex_foo ex_unmarshal ([ex_foo \<mapsto> ''foo''], [])) =
        ex_unmarshal (r_data \<lparr>r_data = ''foo'', r_err = None\<rparr>)"
    using getMessage_enforces_maximum_size
      [where cas = ex_cas and d = ex_foo and unmarshal = ex_unmarshal
         and st = "([ex_foo \<mapsto> ''foo''], [])"] h2 g
    by simp
  show ?thesis using h1 h2 g a b by (simp add: ex_unmarshal_def)
qed

subsection \<open>PutFile\<close>

lemma section_no_fault:
  "r_err (io_NewSectionReader f off n) = None \<Longrightarrow>
   r_data (io_NewSectionReader f off n) = take (nat n) (drop (nat off) (fr_data f))"
  by (simp add: io_NewSectionReader_def Let_def split: option.splits prod.splits if_splits)

lemma upload_no_fault:
  "fr_fault g = None \<Longrightarrow>
   newSectionReadCloser g 0 (int n) = \<lparr>r_data = take n (fr_data g), r_err = None\<rparr>"
  by (simp add: newSectionReadCloser_def io_NewSectionReader_def)

lemma upload_prefix:
  "\<exists>rest. take n (fr_data g) = r_data (newSectionReadCloser g 0 (int n)) @ rest"
proof (cases "fr_fault g")
  case None
  then show ?thesis by (simp add: upload_no_fault)
next
  case (Some pe)
  obtain p e where pe: "pe = (p, e)" by (cases pe)
  show ?thesis
  proof (cases "p < length (take n (fr_data g))")
    case True
    have r: "r_data (newSectionReadCloser g 0 (int n)) = take p (take n (fr_data g))"
      using True by (simp add: newSectionReadCloser_def io_NewSectionReader_def Let_def Some pe)
    show ?thesis unfolding r by (metis append_take_drop_id)
  next
    case False
    have r: "r_data (newSectionReadCloser g 0 (int n)) = take n (fr_data g)"
      using False by (auto simp: newSectionReadCloser_def io_NewSectionReader_def Let_def Some pe)
    show ?thesis unfolding r by simp
  qed
qed

lemma upload_length: "length (r_data (newSectionReadCloser g 0 (int n))) \<le> n"
proof -
  obtain rest where "take n (fr_data g) = r_data (newSectionReadCloser g 0 (int n)) @ rest"
    using upload_prefix by blast
  then have "length (r_data (newSectionReadCloser g 0 (int n))) \<le> length (take n (fr_data g))"
    by (metis length_append le_add1)
  then show ?thesis by simp
qed

lemma PutFile_hashed:
  assumes "directory_OpenRead dir name = Inr file"
    and "r_err (io_NewSectionReader file 0 MaxInt64) = None"
  shows "PutFile hashfn later cas dir name parentDigest st =
     (let n = length (r_data (io_NewSectionReader file 0 MaxInt64));
          d = \<lparr>instanceName = instanceName parentDigest,
               hash = hashfn (r_data (io_NewSectionReader file 0 MaxInt64)),
               sizeBytes = int n\<rparr>;
          uploaded = newSectionReadCloser (later file) 0 (int n)
      in ((case fst (rba_Put (blobAccess cas) d (int n) uploaded (fst st)) of
             None \<Rightarrow> Inr d | Some err \<Rightarrow> Inl err),
          (snd (rba_Put (blobAccess cas) d (int n) uploaded (fst st)),
           snd st @ [CallPutReader d (int n) uploaded])))"
proof -
  let ?hashed = "r_data (io_NewSectionReader file 0 MaxInt64)"
  let ?n = "length ?hashed"
  let ?d = "\<lparr>instanceName = instanceName parentDigest, hash = hashfn ?hashed,
          sizeBytes = int ?n\<rparr>"
  let ?up = "newSectionReadCloser (later file) 0 (int ?n)"
  have cp: "io_Copy_digest (NewDigestGenerator parentDigest) (io_NewSectionReader file 0 MaxInt64) =
      (\<lparr>dg_instanceName = instanceName parentDigest, dg_written = ?hashed\<rparr>, int ?n, None)"
    by (simp add: io_Copy_digest_def NewDigestGenerator_def DigestGenerator_Write_def assms(2))
  have sm: "DigestGenerator_Sum hashfn
      \<lparr>dg_instanceName = instanceName parentDigest, dg_written = ?hashed\<rparr> = ?d"
    by (simp add: DigestGenerator_Sum_def)
  obtain err s' where pt: "rba_Put (blobAccess cas) ?d (int ?n) ?up (fst st) = (err, s')"
    by (metis surj_pair)
  have "PutFile hashfn later cas dir name parentDigest st =
      ((case err of None \<Rightarrow> Inr ?d | Some e \<Rightarrow> Inl e),
       (s', snd st @ [CallPutReader ?d (int ?n) ?up]))"
    by (cases err) (simp_all add: PutFile_def assms(1) cp sm Let_def call_PutReader_def pt)
  then show ?thesis by (simp add: Let_def pt)
qed

text \<open>
  Claim C9, as amended. When the file does not open, or reading it for the digest fails,
  \<open>PutFile\<close> returns the error and makes no call to the backend. Otherwise, with \<open>n\<close>
  the number of bytes consumed while computing the digest, which is the size of the
  digest, \<open>PutFile\<close> makes one \<open>Put\<close> of the section of the first \<open>n\<close> bytes of the
  file as it is when the backend reads it, and returns the digest or the error of that
  \<open>Put\<close>, leaving the backend as the \<open>Put\<close> left it. What is uploaded is a prefix of
  the first \<open>n\<close> bytes of the file as it then is, and all of them when that reading
  does not fail. Bytes appended in the meantime are left out: when the file only grew,
  what is uploaded is exactly what was hashed and its length is the size of the digest,
  as it is whenever the file still holds \<open>n\<close> bytes.
\<close>

theorem PutFile_uploads_what_was_hashed:
  "(\<forall>err. directory_OpenRead dir name = Inl err \<longrightarrow>
       PutFile hashfn later cas dir name parentDigest st = (Inl err, st)) \<and>
   (\<forall>file err. directory_OpenRead dir name = Inr file \<and>
       r_err (io_NewSectionReader file 0 MaxInt64) = Some err \<longrightarrow>
       PutFile hashfn later cas dir name parentDigest st = (Inl err, st)) \<and>
   (\<forall>file. directory_OpenRead dir name = Inr file \<and>
       r_err (io_NewSectionReader file 0 MaxInt64) = None \<longrightarrow>
       (\<exists>n d uploaded.
          n = length (r_data (io_NewSectionReader file 0 MaxInt64)) \<and>
          r_data (io_NewSectionReader file 0 MaxInt64) = take n (fr_data file) \<and>
          d = \<lparr>instanceName = instanceName parentDigest,
               hash = hashfn (take n (fr_data file)), sizeBytes = int n\<rparr> \<and>
          uploaded = newSectionReadCloser (later file) 0 (int n) \<and>
          PutFile hashfn later cas dir name parentDigest st =
            ((case fst (rba_Put (blobAccess cas) d (sizeBytes d) uploaded (fst st)) of
                None \<Rightarrow> Inr d | Some err \<Rightarrow> Inl err),
             (snd (rba_Put (blobAccess cas) d (sizeBytes d) uploaded (fst st)),
              snd st @ [CallPutReader d (sizeBytes d) uploaded])) \<and>
          (\<exists>rest. take n (fr_data (later file)) = r_data uploaded @ rest) \<and>
          int (length (r_data uploaded)) \<le> sizeBytes d \<and>
          (fr_fault (later file) = None \<longrightarrow>
             uploaded = \<lparr>r_data = take n (fr_data (later file)), r_err = None\<rparr>) \<and>
          (fr_fault (later file) = None \<and> n \<le> length (fr_data (later file)) \<longrightarrow>
             int (length (r_data uploaded)) = sizeBytes d) \<and>
          (\<forall>extra. fr_fault (later file) = None \<and>
             fr_data (later file) = fr_data file @ extra \<longrightarrow>
             uploaded = \<lparr>r_data = take n (fr_data file), r_err = None\<rparr> \<and>
             int (length (r_data uploaded)) = sizeBytes d)))"
proof (intro conjI allI impI)
  fix err
  assume "directory_OpenRead dir name = Inl err"
  then show "PutFile hashfn later cas dir name parentDigest st = (Inl err, st)"
    by (simp add: PutFile_def)
next
  fix fl err
  assume h: "directory_OpenRead dir name = Inr fl \<and>
       r_err (io_NewSectionReader fl 0 MaxInt64) = Some err"
  then show "PutFile hashfn later cas dir name parentDigest st = (Inl err, st)"
    by (simp add: PutFile_def io_Copy_digest_def)
next
  fix fl
  assume h: "directory_OpenRead dir name = Inr fl \<and>
       r_err (io_NewSectionReader fl 0 MaxInt64) = None"
  let ?hashed = "r_data (io_NewSectionReader fl 0 MaxInt64)"
  let ?n = "length ?hashed"
  let ?d = "\<lparr>instanceName = instanceName parentDigest,
            hash = hashfn (take ?n (fr_data fl)), sizeBytes = int ?n\<rparr>"
  let ?up = "newSectionReadCloser (later fl) 0 (int ?n)"
  have hd: "?hashed = take (nat MaxInt64) (fr_data fl)"
    using section_no_fault [OF conjunct2 [OF h]] by simp
  have le: "?n \<le> length (fr_data fl)" by (simp add: hd)
  have tk: "take ?n (fr_data fl) = ?hashed" by (simp add: hd min_def)
  have pf: "PutFile hashfn later cas dir name parentDigest st =
            ((case fst (rba_Put (blobAccess cas) ?d (sizeBytes ?d) ?up (fst st)) of
                None \<Rightarrow> Inr ?d | Some err \<Rightarrow> Inl err),
             (snd (rba_Put (blobAccess cas) ?d (sizeBytes ?d) ?up (fst st)),
              snd st @ [CallPutReader ?d (sizeBytes ?d) ?up]))"
    by (subst PutFile_hashed [where hashfn = hashfn and later = later and cas = cas
          and parentDigest = parentDigest and st = st, OF conjunct1 [OF h] conjunct2 [OF h]])
       (unfold tk, simp add: Let_def)
  have pre: "\<exists>rest. take ?n (fr_data (later fl)) = r_data ?up @ rest"
    by (rule upload_prefix)
  have ln: "int (length (r_data ?up)) \<le> sizeBytes ?d"
    using upload_length [of "later fl" ?n] by simp
  have nf: "fr_fault (later fl) = None \<longrightarrow>
      ?up = \<lparr>r_data = take ?n (fr_data (later fl)), r_err = None\<rparr>"
    by (simp add: upload_no_fault)
  have full: "fr_fault (later fl) = None \<and> ?n \<le> length (fr_data (later fl)) \<longrightarrow>
      int (length (r_data ?up)) = sizeBytes ?d"
    by (simp add: upload_no_fault)
  have app: "\<forall>extra. fr_fault (later fl) = None \<and>
             fr_data (later fl) = fr_data fl @ extra \<longrightarrow>
             ?up = \<lparr>r_data = take ?n (fr_data fl), r_err = None\<rparr> \<and>
             int (length (r_data ?up)) = sizeBytes ?d"
    using le by (auto simp: upload_no_fault)
  show "\<exists>n d uploaded.
          n = length (r_data (io_NewSectionReader fl 0 MaxInt64)) \<and>
          r_data (io_NewSectionReader fl 0 MaxInt64) = take n (fr_data fl) \<and>
          d = \<lparr>instanceName = instanceName parentDigest,
               hash = hashfn (take n (fr_data fl)), sizeBytes = int n\<rparr> \<and>
          uploaded = newSectionReadCloser (later fl) 0 (int n) \<and>
          PutFile hashfn later cas dir name parentDigest st =
            ((case fst (rba_Put (blobAccess cas) d (sizeBytes d) uploaded (fst st)) of
                None \<Rightarrow> Inr d | Some err \<Rightarrow> Inl err),
             (snd (rba_Put (blobAccess cas) d (sizeBytes d) uploaded (fst st)),
              snd st @ [CallPutReader d (sizeBytes d) uploaded])) \<and>
          (\<exists>rest. take n (fr_data (later fl)) = r_data uploaded @ rest) \<and>
          int (length (r_data uploaded)) \<le> sizeBytes d \<and>
          (fr_fault (later fl) = None \<longrightarrow>
             uploaded = \<lparr>r_data = take n (fr_data (later fl)), r_err = None\<rparr>) \<and>
          (fr_fault (later fl) = None \<and> n \<le> length (fr_data (later fl)) \<longrightarrow>
             int (length (r_data uploaded)) = sizeBytes d) \<and>
          (\<forall>extra. fr_fault (later fl) = None \<and>
             fr_data (later fl) = fr_data fl @ extra \<longrightarrow>
             uploaded = \<lparr>r_data = take n (fr_data fl), r_err = None\<rparr> \<and>
             int (length (r_data uploaded)) = sizeBytes d)"
    by (intro exI [of _ ?n] exI [of _ ?d] exI [of _ ?up] conjI refl tk [symmetric] pf pre ln nf
          full app)
qed

lemma ex_open_log:
  "directory_OpenRead ex_dir ''log'' = Inr \<lparr>fr_data = ''foo'', fr_fault = None\<rparr>"
  by (simp add: directory_OpenRead_def ex_dir_def)

lemma ex_hash_log:
  "io_NewSectionReader \<lparr>fr_data = ''foo'', fr_fault = None\<rparr> 0 MaxInt64 =
     \<lparr>r_data = ''foo'', r_err = None\<rparr>"
  by (simp add: io_NewSectionReader_def MaxInt64_def)

lemma ex_store_Put:
  "rba_Put (blobAccess ex_cas) d n \<lparr>r_data = x, r_err = None\<rparr> s = (None, s(d \<mapsto> x))"
  by (simp add: ex_cas_def ex_store_def)

theorem PutFile_uploads_what_was_hashed_witness:
  "directory_OpenRead ex_dir ''log'' = Inr \<lparr>fr_data = ''foo'', fr_fault = None\<rparr> \<and>
   r_err (io_NewSectionReader \<lparr>fr_data = ''foo'', fr_fault = None\<rparr> 0 MaxInt64) = None \<and>
   fr_fault (ex_later \<lparr>fr_data = ''foo'', fr_fault = None\<rparr>) = None \<and>
   fr_data (ex_later \<lparr>fr_data = ''foo'', fr_fault = None\<rparr>) = ''foo'' @ ''bar'' \<and>
   PutFile ex_hashfn ex_later ex_cas ex_dir ''log'' ex_hello (Map.empty, []) =
     (Inr ex_foo,
      ([ex_foo \<mapsto> ''foo''], [CallPutReader ex_foo 3 \<lparr>r_data = ''foo'', r_err = None\<rparr>]))"
proof -
  let ?fl = "\<lparr>fr_data = ''foo'', fr_fault = None\<rparr>"
  have h: "directory_OpenRead ex_dir ''log'' = Inr ?fl \<and>
      r_err (io_NewSectionReader ?fl 0 MaxInt64) = None"
    by (simp add: ex_open_log ex_hash_log)
  have lf: "fr_fault (ex_later ?fl) = None \<and> fr_data (ex_later ?fl) = fr_data ?fl @ ''bar''"
    by (simp add: ex_later_def)
  note t = PutFile_uploads_what_was_hashed
    [where dir = ex_dir and name = "''log''" and later = ex_later and hashfn = ex_hashfn
       and cas = ex_cas and parentDigest = ex_hello and st = "(Map.empty, [])",
     THEN conjunct2, THEN conjunct2, rule_format, OF h]
  obtain n d uploaded where
    n: "n = length (r_data (io_NewSectionReader ?fl 0 MaxInt64))"
    and d: "d = \<lparr>instanceName = instanceName ex_hello,
               hash = ex_hashfn (take n (fr_data ?fl)), sizeBytes = int n\<rparr>"
    and pf: "PutFile ex_hashfn ex_later ex_cas ex_dir ''log'' ex_hello (Map.empty, []) =
            ((case fst (rba_Put (blobAccess ex_cas) d (sizeBytes d) uploaded
                          (fst (Map.empty :: digest \<rightharpoonup> string, [] :: rba_call list))) of
                None \<Rightarrow> Inr d | Some err \<Rightarrow> Inl err),
             (snd (rba_Put (blobAccess ex_cas) d (sizeBytes d) uploaded
                     (fst (Map.empty :: digest \<rightharpoonup> string, [] :: rba_call list))),
              snd (Map.empty :: digest \<rightharpoonup> string, [] :: rba_call list) @
                [CallPutReader d (sizeBytes d) uploaded]))"
    and app: "\<forall>extra. fr_fault (ex_later ?fl) = None \<and>
             fr_data (ex_later ?fl) = fr_data ?fl @ extra \<longrightarrow>
             uploaded = \<lparr>r_data = take n (fr_data ?fl), r_err = None\<rparr> \<and>
             int (length (r_data uploaded)) = sizeBytes d"
    using t by (elim exE conjE) (erule (3) that)
  have n3: "n = 3" using n by (simp add: ex_hash_log)
  have d3: "d = ex_foo" using d n3 by (simp add: ex_foo_def ex_hello_def ex_hashfn_def)
  have u3: "uploaded = \<lparr>r_data = ''foo'', r_err = None\<rparr>"
    using app [rule_format, OF lf] n3 by simp
  have sz: "sizeBytes ex_foo = 3" by (simp add: ex_foo_def)
  have "PutFile ex_hashfn ex_later ex_cas ex_dir ''log'' ex_hello (Map.empty, []) =
     (Inr ex_foo,
      ([ex_foo \<mapsto> ''foo''], [CallPutReader ex_foo 3 \<lparr>r_data = ''foo'', r_err = None\<rparr>]))"
    using pf unfolding d3 u3 by (simp add: ex_store_Put sz)
  then show ?thesis using h lf by simp
qed

text \<open>
  The claim as stated fails for a file that is cut short between the two readings. The
  file holds three bytes when it is hashed and one byte when the backend reads it:
  \<open>PutFile\<close> returns the digest of size 3 with no error, and one byte has been
  uploaded under it.
\<close>

theorem PutFile_truncated_file_uploads_less:
  "PutFile ex_hashfn ex_truncate ex_cas ex_dir ''log'' ex_hello (Map.empty, []) =
     (Inr ex_foo,
      ([ex_foo \<mapsto> ''f''], [CallPutReader ex_foo 3 \<lparr>r_data = ''f'', r_err = None\<rparr>])) \<and>
   int (length ''f'') \<noteq> sizeBytes ex_foo"
proof -
  let ?fl = "\<lparr>fr_data = ''foo'', fr_fault = None\<rparr>"
  have e: "r_err (io_NewSectionReader ?fl 0 MaxInt64) = None" by (simp add: ex_hash_log)
  have up: "newSectionReadCloser (ex_truncate ?fl) 0 3 = \<lparr>r_data = ''f'', r_err = None\<rparr>"
    by (simp add: newSectionReadCloser_def io_NewSectionReader_def ex_truncate_def)
  have d: "\<lparr>instanceName = instanceName ex_hello, hash = ex_hashfn ''foo'', sizeBytes = 3\<rparr> = ex_foo"
    by (simp add: ex_foo_def ex_hello_def ex_hashfn_def)
  have "PutFile ex_hashfn ex_truncate ex_cas ex_dir ''log'' ex_hello (Map.empty, []) =
     (Inr ex_foo,
      ([ex_foo \<mapsto> ''f''], [CallPutReader ex_foo 3 \<lparr>r_data = ''f'', r_err = None\<rparr>]))"
    by (subst PutFile_hashed [where later = ex_truncate and hashfn = ex_hashfn and cas = ex_cas
          and parentDigest = ex_hello and st = "(Map.empty, [])", OF ex_open_log e])
       (simp add: Let_def ex_hash_log up d ex_store_Put)
  then show ?thesis by (simp add: ex_foo_def)
qed

subsection \<open>GetFile\<close>

lemma GetFile_copy_error_removes_file:
  assumes "entries dir name = None"
    and "fst (rba_Get (blobAccess cas) d (fst st)) = Inr r"
    and "snd (io_Copy_file (dir\<lparr>entries := (entries dir)(name \<mapsto> \<lparr>f_mode = mode, f_data = []\<rparr>)\<rparr>)
                name r) = Some err"
    and "mode = (if isExecutable then 365 else 292)"
  shows "fst (fst (GetFile cas d dir name isExecutable st)) = Some err \<and>
     entries (snd (fst (GetFile cas d dir name isExecutable st))) name = None"
proof -
  let ?dir1 = "dir\<lparr>entries := (entries dir)(name \<mapsto> \<lparr>f_mode = mode, f_data = []\<rparr>)\<rparr>"
  have op: "directory_OpenAppend_CreateExcl dir name mode = Inr ?dir1"
    by (simp add: directory_OpenAppend_CreateExcl_def assms(1))
  obtain s' where g: "rba_Get (blobAccess cas) d (fst st) = (Inr r, s')"
    using assms(2) by (cases "rba_Get (blobAccess cas) d (fst st)") simp
  obtain dir2 where cp: "io_Copy_file ?dir1 name r = (dir2, Some err)"
    using assms(3) by (cases "io_Copy_file ?dir1 name r") simp
  have rm: "entries (snd (directory_Remove dir2 name)) name = None"
    by (simp add: directory_Remove_def split: option.splits)
  show ?thesis
    using op cp rm assms(4) by (simp add: GetFile_def Let_def call_Get_def g)
qed

lemma GetFile_success_keeps_file:
  assumes "entries dir name = None"
    and "fst (rba_Get (blobAccess cas) d (fst st)) = Inr r"
    and "r_err r = None" and "dir_write_fault dir = None"
  shows "fst (fst (GetFile cas d dir name isExecutable st)) = None \<and>
     entries (snd (fst (GetFile cas d dir name isExecutable st))) name =
       Some \<lparr>f_mode = (if isExecutable then 365 else 292), f_data = r_data r\<rparr>"
proof -
  obtain s' where g: "rba_Get (blobAccess cas) d (fst st) = (Inr r, s')"
    using assms(2) by (cases "rba_Get (blobAccess cas) d (fst st)") simp
  show ?thesis
    using assms(1,3,4)
    by (simp add: GetFile_def Let_def call_Get_def g directory_OpenAppend_CreateExcl_def
        io_Copy_file_def file_Write_def)
qed

lemma GetFile_get_error:
  assumes "entries dir name = None"
    and "fst (rba_Get (blobAccess cas) d (fst st)) = Inl err"
  shows "fst (fst (GetFile cas d dir name isExecutable st)) = Some err \<and>
     entries (snd (fst (GetFile cas d dir name isExecutable st))) name =
       Some \<lparr>f_mode = (if isExecutable then 365 else 292), f_data = []\<rparr>"
proof -
  obtain s' where g: "rba_Get (blobAccess cas) d (fst st) = (Inl err, s')"
    using assms(2) by (cases "rba_Get (blobAccess cas) d (fst st)") simp
  show ?thesis
    using assms(1)
    by (simp add: GetFile_def Let_def call_Get_def g directory_OpenAppend_CreateExcl_def)
qed

text \<open>
  Claim C10. The claim holds when the copy fails and when it succeeds (the two lemmas
  above for these paths), and fails when \<open>Get\<close> fails: \<open>GetFile\<close> then returns
  before the removal. Here the backend holds no blob, \<open>Get\<close> fails with NotFound, and
  the file created under the requested name, empty and with mode 0444, is still in the
  directory when the error is returned.
\<close>

theorem GetFile_failed_Get_leaves_file:
  "entries ex_dir ''out'' = None \<and>
   fst (rba_Get (blobAccess ex_cas) ex_hello Map.empty) = Inl ex_blob_not_found \<and>
   fst (fst (GetFile ex_cas ex_hello ex_dir ''out'' False (Map.empty, []))) =
     Some ex_blob_not_found \<and>
   entries (snd (fst (GetFile ex_cas ex_hello ex_dir ''out'' False (Map.empty, [])))) ''out'' =
     Some \<lparr>f_mode = 292, f_data = []\<rparr>"
proof -
  have a: "entries ex_dir ''out'' = None" by (simp add: ex_dir_def)
  have b: "fst (rba_Get (blobAccess ex_cas) ex_hello
             (fst (Map.empty :: digest \<rightharpoonup> string, [] :: rba_call list))) = Inl ex_blob_not_found"
    by (simp add: ex_cas_def ex_store_def)
  show ?thesis using a b GetFile_get_error [OF a b, of False] by simp
qed

end
